theory Spec2Isabelle
  imports Main
begin

section \<open>GitWebhookProxy: the proxy package (pkg/proxy/proxy.go)\<close>

text \<open>
  A shallow embedding of \<^verbatim>\<open>pkg/proxy/proxy.go\<close>. Go strings and byte slices are
  byte sequences; both are modelled as \<^typ>\<open>string\<close> (a list of 8-bit characters).
  The functions of Go's standard library that the package calls on strings
  (\<^verbatim>\<open>strings.TrimSpace\<close>, \<^verbatim>\<open>strings.TrimSuffix\<close>) are modelled on bytes, as Go
  computes them; the library calls with an effect or a large implementation
  (\<^verbatim>\<open>url.Parse\<close>, \<^verbatim>\<open>http.NewRequest\<close>, the HTTP client, the provider and parser
  packages) are parameters of the model, and every call made to them is recorded.
  The \<^verbatim>\<open>log.Printf\<close> lines only write to the process log and are left out.
\<close>

subsection \<open>Go's strings package\<close>

text \<open>\<^verbatim>\<open>len(s) >= len(prefix) && s[:len(prefix)] == prefix\<close>\<close>

definition HasPrefix :: "string \<Rightarrow> string \<Rightarrow> bool" where
  "HasPrefix s pre = (length pre \<le> length s \<and> take (length pre) s = pre)"

text \<open>\<^verbatim>\<open>len(s) >= len(suffix) && s[len(s)-len(suffix):] == suffix\<close>\<close>

definition HasSuffix :: "string \<Rightarrow> string \<Rightarrow> bool" where
  "HasSuffix s suf = (length suf \<le> length s \<and> drop (length s - length suf) s = suf)"

definition TrimSuffix :: "string \<Rightarrow> string \<Rightarrow> string" where
  "TrimSuffix s suf = (if HasSuffix s suf then take (length s - length suf) s else s)"

text \<open>
  \<^verbatim>\<open>strings.TrimSpace\<close> removes all leading and trailing white space as defined by
  Unicode (\<^verbatim>\<open>unicode.IsSpace\<close>), decoding the string as UTF-8. The white-space code
  points are U+0009..U+000D, U+0020, U+0085, U+00A0, U+1680, U+2000..U+200A, U+2028,
  U+2029, U+202F, U+205F and U+3000; \<open>spaceRunes\<close> lists their UTF-8 encodings.
  A byte sequence that is not valid UTF-8 decodes to U+FFFD, which is not white space,
  so a string begins (ends) with a white-space rune exactly when it begins (ends)
  with one of these encodings.
\<close>

definition spaceRunes :: "string list" where
  "spaceRunes =
    [[CHR 0x09], [CHR 0x0A], [CHR 0x0B], [CHR 0x0C], [CHR 0x0D], [CHR 0x20],
     [CHR 0xC2, CHR 0x85], [CHR 0xC2, CHR 0xA0],
     [CHR 0xE1, CHR 0x9A, CHR 0x80],
     [CHR 0xE2, CHR 0x80, CHR 0x80], [CHR 0xE2, CHR 0x80, CHR 0x81],
     [CHR 0xE2, CHR 0x80, CHR 0x82], [CHR 0xE2, CHR 0x80, CHR 0x83],
     [CHR 0xE2, CHR 0x80, CHR 0x84], [CHR 0xE2, CHR 0x80, CHR 0x85],
     [CHR 0xE2, CHR 0x80, CHR 0x86], [CHR 0xE2, CHR 0x80, CHR 0x87],
     [CHR 0xE2, CHR 0x80, CHR 0x88], [CHR 0xE2, CHR 0x80, CHR 0x89],
     [CHR 0xE2, CHR 0x80, CHR 0x8A],
     [CHR 0xE2, CHR 0x80, CHR 0xA8], [CHR 0xE2, CHR 0x80, CHR 0xA9],
     [CHR 0xE2, CHR 0x80, CHR 0xAF],
     [CHR 0xE2, CHR 0x81, CHR 0x9F],
     [CHR 0xE3, CHR 0x80, CHR 0x80]]"

text \<open>The white-space rune a string starts with, and the one it ends with.\<close>

definition leadingSpace :: "string \<Rightarrow> string option" where
  "leadingSpace s = find (HasPrefix s) spaceRunes"

definition trailingSpace :: "string \<Rightarrow> string option" where
  "trailingSpace s = find (HasSuffix s) spaceRunes"

lemma spaceRunes_nonempty: "w \<in> set spaceRunes \<Longrightarrow> w \<noteq> []"
  by (auto simp: spaceRunes_def)

lemma leadingSpace_SomeD:
  "leadingSpace s = Some w \<Longrightarrow> w \<in> set spaceRunes \<and> HasPrefix s w"
  by (auto simp: leadingSpace_def find_Some_iff)

lemma trailingSpace_SomeD:
  "trailingSpace s = Some w \<Longrightarrow> w \<in> set spaceRunes \<and> HasSuffix s w"
  by (auto simp: trailingSpace_def find_Some_iff)

text \<open>\<^verbatim>\<open>strings.TrimLeftFunc(s, unicode.IsSpace)\<close>\<close>

function TrimLeftSpace :: "string \<Rightarrow> string" where
  "TrimLeftSpace s =
     (case leadingSpace s of
        None \<Rightarrow> s
      | Some w \<Rightarrow> TrimLeftSpace (drop (length w) s))"
  by pat_completeness auto
termination
proof (relation "measure length")
  fix s w
  assume "leadingSpace s = Some w"
  then have "0 < length w" and "length w \<le> length s"
    using leadingSpace_SomeD spaceRunes_nonempty by (auto simp: HasPrefix_def)
  then show "(drop (length w) s, s) \<in> measure length"
    by (cases w) auto
qed simp

text \<open>\<^verbatim>\<open>strings.TrimRightFunc(s, unicode.IsSpace)\<close>\<close>

function TrimRightSpace :: "string \<Rightarrow> string" where
  "TrimRightSpace s =
     (case trailingSpace s of
        None \<Rightarrow> s
      | Some w \<Rightarrow> TrimRightSpace (take (length s - length w) s))"
  by pat_completeness auto
termination
proof (relation "measure length")
  fix s w
  assume "trailingSpace s = Some w"
  then have "0 < length w" and "length w \<le> length s"
    using trailingSpace_SomeD spaceRunes_nonempty by (auto simp: HasSuffix_def)
  then show "(take (length s - length w) s, s) \<in> measure length"
    by (cases w) auto
qed simp

declare TrimLeftSpace.simps [simp del] TrimRightSpace.simps [simp del]

text \<open>\<^verbatim>\<open>strings.TrimSpace(s)\<close>, that is \<^verbatim>\<open>TrimRightFunc(TrimLeftFunc(s, IsSpace), IsSpace)\<close>\<close>

definition TrimSpace :: "string \<Rightarrow> string" where
  "TrimSpace s = TrimRightSpace (TrimLeftSpace s)"

subsection \<open>The Proxy struct and the path allow-list\<close>

text \<open>\<^verbatim>\<open>http.Client{Timeout: ...}\<close>; a \<^verbatim>\<open>time.Duration\<close> counts nanoseconds.\<close>

record Client =
  Timeout :: int

definition time_Second :: int where
  "time_Second = 1000000000"

text \<open>
  A Go slice \<^verbatim>\<open>[]string\<close> is either \<^verbatim>\<open>nil\<close> or holds a sequence of elements
  (possibly none): \<open>None\<close> is the nil slice. \<^verbatim>\<open>len\<close> of the nil slice is 0 and
  \<^verbatim>\<open>range\<close> over it visits nothing.
\<close>

type_synonym slice = "string list option"

definition len :: "slice \<Rightarrow> nat" where
  "len xs = (case xs of None \<Rightarrow> 0 | Some ys \<Rightarrow> length ys)"

definition elems :: "slice \<Rightarrow> string list" where
  "elems xs = (case xs of None \<Rightarrow> [] | Some ys \<Rightarrow> ys)"

record Proxy =
  provider :: string
  upstreamURL :: string
  allowedPaths :: slice
  secret :: string
  httpClient :: Client

text \<open>The key both sides of the comparison in \<^verbatim>\<open>isPathAllowed\<close> are reduced to.\<close>

definition normPath :: "string \<Rightarrow> string" where
  "normPath s = TrimSuffix (TrimSpace s) ''/''"

text \<open>The \<^verbatim>\<open>for _, p := range p.allowedPaths\<close> loop, returning at the first match.\<close>

fun pathLoop :: "string list \<Rightarrow> string \<Rightarrow> bool" where
  "pathLoop [] path = False"
| "pathLoop (p # ps) path =
     (if TrimSuffix (TrimSpace p) ''/'' = TrimSuffix (TrimSpace path) ''/'' then True
      else pathLoop ps path)"

definition isPathAllowed :: "Proxy \<Rightarrow> string \<Rightarrow> bool" where
  "isPathAllowed P path =
     (if len (allowedPaths P) = 0 then True
      else pathLoop (elems (allowedPaths P)) path)"


subsection \<open>Errors, hooks, requests and responses\<close>

text \<open>A Go \<^verbatim>\<open>error\<close> value made by \<^verbatim>\<open>errors.New\<close>; \<open>Error_msg\<close> is its \<^verbatim>\<open>Error()\<close> method.\<close>

datatype error = Err string

fun Error_msg :: "error \<Rightarrow> string" where
  "Error_msg (Err m) = m"

definition errors_New :: "string \<Rightarrow> error" where
  "errors_New m = Err m"

text \<open>\<^verbatim>\<open>url.URL\<close>; the package reads and writes \<^verbatim>\<open>Scheme\<close> and reads \<^verbatim>\<open>Path\<close>.\<close>

record URL =
  Scheme :: string
  Host :: string
  Path :: string
  RawQuery :: string

text \<open>
  \<^verbatim>\<open>providers.Hook\<close>. \<^verbatim>\<open>Headers\<close> is a Go \<^verbatim>\<open>map[string]string\<close>: it is kept as the
  list of its entries in the order in which \<^verbatim>\<open>range\<close> visits them in this run, and
  its keys are pairwise distinct.
\<close>

record Hook =
  RequestMethod :: string
  Headers :: "(string \<times> string) list"
  Payload :: string

text \<open>\<^verbatim>\<open>http.Request\<close> (inbound and outbound) and \<^verbatim>\<open>http.Response\<close>.\<close>

record Request =
  Method :: string
  URL :: URL
  Header :: "string \<rightharpoonup> string list"
  Body :: string

record Response =
  StatusCode :: int
  Status :: string

text \<open>
  What the caller of the handler is sent. \<open>status = None\<close> until \<^verbatim>\<open>WriteHeader\<close> is
  called; a handler that returns without writing makes net/http answer 200 with an
  empty body.
\<close>

record ResponseWriter =
  status :: "int option"
  body :: string

definition newResponseWriter :: ResponseWriter where
  "newResponseWriter = \<lparr>status = None, body = []\<rparr>"

definition response :: "ResponseWriter \<Rightarrow> int \<times> string" where
  "response w = (case status w of None \<Rightarrow> 200 | Some c \<Rightarrow> c, body w)"

text \<open>
  \<^verbatim>\<open>http.Error(w, error, code)\<close>: \<^verbatim>\<open>w.WriteHeader(code); fmt.Fprintln(w, error)\<close>
  (only the first \<^verbatim>\<open>WriteHeader\<close> sets the status).
\<close>

definition http_Error :: "ResponseWriter \<Rightarrow> string \<Rightarrow> int \<Rightarrow> ResponseWriter" where
  "http_Error w msg code =
     w\<lparr>status := (case status w of None \<Rightarrow> Some code | Some c \<Rightarrow> Some c),
       body := body w @ msg @ [CHR 0x0A]\<rparr>"

definition StatusBadRequest :: int where "StatusBadRequest = 400"
definition StatusForbidden :: int where "StatusForbidden = 403"
definition StatusInternalServerError :: int where "StatusInternalServerError = 500"

subsection \<open>The collaborators\<close>

text \<open>
  Every call the package makes outside itself, in the order made. \<open>'p\<close> is the
  \<^verbatim>\<open>providers.Provider\<close> interface value.
\<close>

datatype 'p call =
    NewProviderCall string string
  | ParseCall Request 'p
  | ValidateCall 'p Hook
  | UrlParseCall string
  | NewRequestCall string string string
  | HeaderAddCall string string
  | ClientDoCall Client Request

text \<open>
  The code outside \<^verbatim>\<open>pkg/proxy\<close>: the \<^verbatim>\<open>providers\<close> and \<^verbatim>\<open>parser\<close> packages of the
  repository, and \<^verbatim>\<open>net/url\<close>, \<^verbatim>\<open>net/http\<close> of the standard library. Each is a
  parameter; a Go result pair \<^verbatim>\<open>(value, error)\<close> is a sum, \<open>Inl\<close> the error.
\<close>

record 'p env =
  ContentTypeHeader :: string
  NewProvider :: "string \<Rightarrow> string \<Rightarrow> error + 'p"
  Parse :: "Request \<Rightarrow> 'p \<Rightarrow> error + Hook"
  Validate :: "'p \<Rightarrow> Hook \<Rightarrow> bool"
  url_Parse :: "string \<Rightarrow> error + URL"
  url_String :: "URL \<Rightarrow> string"
  http_NewRequest :: "string \<Rightarrow> string \<Rightarrow> string \<Rightarrow> error + Request"
  CanonicalMIMEHeaderKey :: "string \<Rightarrow> string"
  Do :: "Client \<Rightarrow> Request \<Rightarrow> error + Response"

text \<open>
  \<^verbatim>\<open>req.Header.Add(key, value)\<close>: the value is appended to the values stored under
  the canonical form of the key.
\<close>

definition valuesOf :: "(string \<rightharpoonup> string list) \<Rightarrow> string \<Rightarrow> string list" where
  "valuesOf h k = (case h k of None \<Rightarrow> [] | Some vs \<Rightarrow> vs)"

definition Header_Add :: "'p env \<Rightarrow> Request \<Rightarrow> string \<Rightarrow> string \<Rightarrow> Request" where
  "Header_Add env req key val =
     (let k = CanonicalMIMEHeaderKey env key
      in req\<lparr>Header := (Header req)(k \<mapsto> valuesOf (Header req) k @ [val])\<rparr>)"

subsection \<open>redirect\<close>

text \<open>The \<^verbatim>\<open>for key, value := range hook.Headers\<close> loop, with the calls it makes.\<close>

fun addHeaders ::
  "'p env \<Rightarrow> (string \<times> string) list \<Rightarrow> Request \<times> 'p call list \<Rightarrow> Request \<times> 'p call list"
where
  "addHeaders env [] st = st"
| "addHeaders env ((key, val) # kvs) (req, tr) =
     addHeaders env kvs (Header_Add env req key val, tr @ [HeaderAddCall key val])"

text \<open>The result pair \<^verbatim>\<open>(*http.Response, error)\<close> and the calls made; \<open>None\<close> is the nil hook.\<close>

definition redirect ::
  "'p env \<Rightarrow> Proxy \<Rightarrow> Hook option \<Rightarrow> string \<Rightarrow> (error + Response) \<times> 'p call list"
where
  "redirect env P hook path =
     (case hook of
        None \<Rightarrow> (Inl (errors_New ''Cannot redirect with nil Hook''), [])
      | Some h \<Rightarrow>
         (let tr1 = [UrlParseCall (upstreamURL P @ path)] in
          case url_Parse env (upstreamURL P @ path) of
            Inl err \<Rightarrow> (Inl err, tr1)
          | Inr url \<Rightarrow>
             (let url' = (if Scheme url = [] then url\<lparr>Scheme := ''http''\<rparr> else url);
                  tr2 = tr1 @ [NewRequestCall (RequestMethod h) (url_String env url') (Payload h)]
              in case http_NewRequest env (RequestMethod h) (url_String env url') (Payload h) of
                   Inl err \<Rightarrow> (Inl err, tr2)
                 | Inr req \<Rightarrow>
                    (let st3 = (case map_of (Headers h) (ContentTypeHeader env) of
                                  Some val \<Rightarrow>
                                    (Header_Add env req (ContentTypeHeader env) val,
                                     tr2 @ [HeaderAddCall (ContentTypeHeader env) val])
                                | None \<Rightarrow> (req, tr2));
                         st4 = addHeaders env (Headers h) st3
                     in (Do env (httpClient P) (fst st4),
                         snd st4 @ [ClientDoCall (httpClient P) (fst st4)])))))"

subsection \<open>proxyRequest\<close>

definition apostrophe :: string where
  "apostrophe = [CHR 0x27]"

definition redirectMsg :: "'p env \<Rightarrow> Proxy \<Rightarrow> Request \<Rightarrow> string" where
  "redirectMsg env P r =
     ''Error Redirecting '' @ apostrophe @ url_String env (URL r) @ apostrophe @
     '' to upstream '' @ apostrophe @ upstreamURL P @ Path (URL r) @ apostrophe"

text \<open>The handler: the response writer after it returns, and the calls made.\<close>

definition proxyRequest ::
  "'p env \<Rightarrow> Proxy \<Rightarrow> ResponseWriter \<Rightarrow> Request \<Rightarrow> ResponseWriter \<times> 'p call list"
where
  "proxyRequest env P w r =
     (if \<not> isPathAllowed P (Path (URL r)) then
        (http_Error w (''Not allowed to proxy path: '' @ apostrophe @ Path (URL r) @ apostrophe)
           StatusForbidden, [])
      else
        let tr1 = [NewProviderCall (provider P) (secret P)] in
        case NewProvider env (provider P) (secret P) of
          Inl err \<Rightarrow> (http_Error w ''Error creating Provider'' StatusInternalServerError, tr1)
        | Inr prov \<Rightarrow>
           (let tr2 = tr1 @ [ParseCall r prov] in
            case Parse env r prov of
              Inl err \<Rightarrow>
                (http_Error w (''Error parsing Hook: '' @ Error_msg err) StatusBadRequest, tr2)
            | Inr hook \<Rightarrow>
               (let tr3 = tr2 @ [ValidateCall prov hook] in
                if \<not> Validate env prov hook then
                  (http_Error w ''Error validating Hook'' StatusBadRequest, tr3)
                else
                  case redirect env P (Some hook) (Path (URL r)) of
                    (Inl errs, tr4) \<Rightarrow>
                      (http_Error w (redirectMsg env P r) StatusInternalServerError, tr3 @ tr4)
                  | (Inr resp, tr4) \<Rightarrow>
                      if StatusCode resp \<ge> 400 then
                        (http_Error w
                           (redirectMsg env P r @ '' Upstream Redirect Status:'' @ Status resp)
                           (StatusCode resp), tr3 @ tr4)
                      else (w, tr3 @ tr4))))"

subsection \<open>NewProxy\<close>

definition NewProxy :: "string \<Rightarrow> slice \<Rightarrow> string \<Rightarrow> string \<Rightarrow> error + Proxy" where
  "NewProxy upstreamURL' allowedPaths' provider' secret' =
     (if length (TrimSpace secret') = 0 then
        Inl (errors_New ''Cannot create Proxy with empty secret'')
      else if length (TrimSpace upstreamURL') = 0 then
        Inl (errors_New ''Cannot create Proxy with empty upstreamURL'')
      else if length (TrimSpace provider') = 0 then
        Inl (errors_New ''Cannot create Proxy with empty provider'')
      else if allowedPaths' = None then
        Inl (errors_New ''Cannot create Proxy with nil allowedPaths'')
      else
        Inr \<lparr>provider = provider', upstreamURL = upstreamURL', allowedPaths = allowedPaths',
             secret = secret', httpClient = \<lparr>Timeout = time_Second * 60\<rparr>\<rparr>)"


subsection \<open>Vocabulary of the properties\<close>

text \<open>
  A white-space-only string: a sequence of white-space runes (possibly none), and
  nothing else.
\<close>


inductive whitespaceOnly :: "string \<Rightarrow> bool" where
  empty: "whitespaceOnly []"
| rune: "w \<in> set spaceRunes \<Longrightarrow> whitespaceOnly s \<Longrightarrow> whitespaceOnly (w @ s)"

text \<open>A byte that occurs in no white-space rune.\<close>

definition plainByte :: "char \<Rightarrow> bool" where
  "plainByte c = (\<forall>w \<in> set spaceRunes. c \<notin> set w)"


text \<open>The \<^verbatim>\<open>Header.Add\<close> calls of a run, and the calls that only \<^verbatim>\<open>redirect\<close> makes.\<close>

fun headerAdds :: "'p call list \<Rightarrow> (string \<times> string) list" where
  "headerAdds [] = []"
| "headerAdds (HeaderAddCall k v # cs) = (k, v) # headerAdds cs"
| "headerAdds (c # cs) = headerAdds cs"

fun isRedirectCall :: "'p call \<Rightarrow> bool" where
  "isRedirectCall (UrlParseCall s) = True"
| "isRedirectCall (NewRequestCall m u b) = True"
| "isRedirectCall (HeaderAddCall k v) = True"
| "isRedirectCall (ClientDoCall c r) = True"
| "isRedirectCall c = False"


subsection \<open>A sample deployment\<close>

text \<open>
  Concrete collaborators on which the properties below are exercised: a provider
  registry that knows \<open>github\<close>, a parser that fails on an empty body, a signature
  check against a fixed value, and an upstream that answers by payload.
\<close>

definition blankURL :: URL where
  "blankURL = \<lparr>Scheme = [], Host = [], Path = [], RawQuery = []\<rparr>"

definition sampleEnv :: "string env" where
  "sampleEnv =
     \<lparr>ContentTypeHeader = ''Content-Type'',
      NewProvider = (\<lambda>name sec. if name = ''github'' then Inr name
                                 else Inl (Err ''unknown provider'')),
      Parse = (\<lambda>r prov. if Body r = [] then Inl (Err ''empty body'')
                         else Inr \<lparr>RequestMethod = ''POST'',
                                   Headers = [(''X-Hub-Signature'', concat (valuesOf (Header r) ''X-Hub-Signature'')),
                                              (''Content-Type'', ''application/json'')],
                                   Payload = Body r\<rparr>),
      Validate = (\<lambda>prov hook. map_of (Headers hook) ''X-Hub-Signature'' = Some ''sha1=good''),
      url_Parse = (\<lambda>s. if CHR '' '' \<in> set s then Inl (Err ''invalid character in URL'')
                        else Inr (blankURL\<lparr>Path := s\<rparr>)),
      url_String = (\<lambda>u. (if Scheme u = [] then [] else Scheme u @ ''://'') @ Host u @ Path u),
      http_NewRequest = (\<lambda>m u b. if m = [] then Inl (Err ''invalid method'')
                                  else Inr \<lparr>Method = m, URL = blankURL\<lparr>Path := u\<rparr>,
                                            Header = Map.empty, Body = b\<rparr>),
      CanonicalMIMEHeaderKey = (\<lambda>k. k),
      Do = (\<lambda>c req. if Body req = ''down'' then Inl (Err ''connection refused'')
                     else if Body req = ''busy''
                       then Inr \<lparr>StatusCode = 503, Status = ''503 Service Unavailable''\<rparr>
                     else Inr \<lparr>StatusCode = 200, Status = ''200 OK''\<rparr>)\<rparr>"

definition sampleProxy :: Proxy where
  "sampleProxy =
     \<lparr>provider = ''github'', upstreamURL = ''upstream:8080'', allowedPaths = Some [''/repo1''],
      secret = ''s3cret'', httpClient = \<lparr>Timeout = time_Second * 60\<rparr>\<rparr>"

definition sampleRequest :: "string \<Rightarrow> string \<Rightarrow> string \<Rightarrow> Request" where
  "sampleRequest path sig payload =
     \<lparr>Method = ''POST'', URL = blankURL\<lparr>Path := path\<rparr>,
      Header = [''X-Hub-Signature'' \<mapsto> [sig]], Body = payload\<rparr>"

text \<open>The hook the sample parser makes of a request.\<close>

definition sampleHook :: "string \<Rightarrow> string \<Rightarrow> Hook" where
  "sampleHook sig payload =
     \<lparr>RequestMethod = ''POST'',
      Headers = [(''X-Hub-Signature'', sig), (''Content-Type'', ''application/json'')],
      Payload = payload\<rparr>"

section \<open>Properties\<close>

subsection \<open>Prefixes, suffixes and white space\<close>

lemma HasPrefix_iff: "HasPrefix s w \<longleftrightarrow> (\<exists>t. s = w @ t)"
proof
  assume "HasPrefix s w"
  then have "s = w @ drop (length w) s"
    by (metis HasPrefix_def append_take_drop_id)
  then show "\<exists>t. s = w @ t" ..
next
  assume "\<exists>t. s = w @ t"
  then show "HasPrefix s w" by (auto simp: HasPrefix_def)
qed

lemma HasSuffix_iff: "HasSuffix s w \<longleftrightarrow> (\<exists>t. s = t @ w)"
proof
  assume "HasSuffix s w"
  then have "s = take (length s - length w) s @ w"
    by (metis HasSuffix_def append_take_drop_id)
  then show "\<exists>t. s = t @ w" ..
next
  assume "\<exists>t. s = t @ w"
  then show "HasSuffix s w" by (auto simp: HasSuffix_def)
qed

lemma leadingSpace_rune_append:
  "w \<in> set spaceRunes \<Longrightarrow> leadingSpace (w @ s) = Some w"
  apply (simp only: spaceRunes_def list.set insert_iff empty_iff)
  apply (elim disjE FalseE; simp add: leadingSpace_def spaceRunes_def HasPrefix_def)
  done

lemma leadingSpace_None_iff:
  "leadingSpace s = None \<longleftrightarrow> (\<forall>w \<in> set spaceRunes. \<not> HasPrefix s w)"
  by (auto simp: leadingSpace_def find_None_iff)

lemma trailingSpace_None_iff:
  "trailingSpace s = None \<longleftrightarrow> (\<forall>w \<in> set spaceRunes. \<not> HasSuffix s w)"
  by (auto simp: trailingSpace_def find_None_iff)

lemma TrimLeftSpace_rune_append:
  "w \<in> set spaceRunes \<Longrightarrow> TrimLeftSpace (w @ s) = TrimLeftSpace s"
  by (subst TrimLeftSpace.simps) (simp add: leadingSpace_rune_append)

lemma TrimLeftSpace_None: "leadingSpace s = None \<Longrightarrow> TrimLeftSpace s = s"
  by (subst TrimLeftSpace.simps) simp

lemma TrimRightSpace_None: "trailingSpace s = None \<Longrightarrow> TrimRightSpace s = s"
  by (subst TrimRightSpace.simps) simp

lemma leadingSpace_Nil: "leadingSpace [] = None"
  by (simp add: leadingSpace_None_iff HasPrefix_def spaceRunes_nonempty)

lemma trailingSpace_Nil: "trailingSpace [] = None"
  by (simp add: trailingSpace_None_iff HasSuffix_def spaceRunes_nonempty)

lemma leadingSpace_TrimLeftSpace: "leadingSpace (TrimLeftSpace s) = None"
proof (induction s rule: TrimLeftSpace.induct)
  case (1 s)
  show ?case
  proof (cases "leadingSpace s")
    case None
    then show ?thesis by (simp add: TrimLeftSpace_None)
  next
    case (Some w)
    with "1" show ?thesis by (subst TrimLeftSpace.simps) simp
  qed
qed

lemma TrimLeftSpace_suffix: "\<exists>pre. s = pre @ TrimLeftSpace s"
proof (induction s rule: TrimLeftSpace.induct)
  case (1 s)
  show ?case
  proof (cases "leadingSpace s")
    case None
    then show ?thesis by (simp add: TrimLeftSpace_None)
  next
    case (Some w)
    with "1" obtain pre where pre: "drop (length w) s = pre @ TrimLeftSpace (drop (length w) s)"
      by blast
    have eq: "TrimLeftSpace s = TrimLeftSpace (drop (length w) s)"
      using Some by (subst TrimLeftSpace.simps) simp
    have "s = take (length w) s @ drop (length w) s" by simp
    then have "s = (take (length w) s @ pre) @ TrimLeftSpace s"
      using pre eq by (metis append.assoc)
    then show ?thesis ..
  qed
qed

lemma whitespaceOnly_TrimLeftSpace: "whitespaceOnly s \<Longrightarrow> TrimLeftSpace s = []"
  by (induction rule: whitespaceOnly.induct)
     (simp_all add: TrimLeftSpace_rune_append TrimLeftSpace_None leadingSpace_Nil)

lemma TrimLeftSpace_Nil_whitespaceOnly: "TrimLeftSpace s = [] \<Longrightarrow> whitespaceOnly s"
proof (induction s rule: TrimLeftSpace.induct)
  case (1 s)
  show ?case
  proof (cases "leadingSpace s")
    case None
    with "1.prems" have "s = []" by (simp add: TrimLeftSpace_None)
    then show ?thesis by (simp add: whitespaceOnly.empty)
  next
    case (Some w)
    then have w: "w \<in> set spaceRunes" "HasPrefix s w"
      using leadingSpace_SomeD by blast+
    have "TrimLeftSpace (drop (length w) s) = []"
      using Some "1.prems" by (subst (asm) TrimLeftSpace.simps) simp
    with "1.IH" Some have "whitespaceOnly (drop (length w) s)" by blast
    with w(1) have "whitespaceOnly (w @ drop (length w) s)" by (rule whitespaceOnly.rune)
    moreover have "w @ drop (length w) s = s"
      using w(2) by (metis HasPrefix_def append_take_drop_id)
    ultimately show ?thesis by simp
  qed
qed

lemma TrimRightSpace_Nil_leading:
  "TrimRightSpace t = [] \<Longrightarrow> t = [] \<or> leadingSpace t \<noteq> None"
proof (induction t rule: TrimRightSpace.induct)
  case (1 t)
  show ?case
  proof (cases "trailingSpace t")
    case None
    with "1.prems" show ?thesis by (simp add: TrimRightSpace_None)
  next
    case (Some w)
    then have w: "w \<in> set spaceRunes" "HasSuffix t w"
      using trailingSpace_SomeD by blast+
    let ?t' = "take (length t - length w) t"
    have t: "t = ?t' @ w"
      using w(2) by (metis HasSuffix_def append_take_drop_id)
    have "TrimRightSpace ?t' = []"
      using Some "1.prems" by (subst (asm) TrimRightSpace.simps) simp
    with "1.IH" Some have "?t' = [] \<or> leadingSpace ?t' \<noteq> None" by blast
    then show ?thesis
    proof
      assume "?t' = []"
      with t have "t = w @ []" by simp
      then have "leadingSpace t = Some w"
        using leadingSpace_rune_append [OF w(1), of "[]"] by simp
      then show ?thesis by simp
    next
      assume "leadingSpace ?t' \<noteq> None"
      then obtain v where v: "v \<in> set spaceRunes" "HasPrefix ?t' v"
        by (auto simp: leadingSpace_None_iff)
      then obtain r where "?t' = v @ r" by (auto simp: HasPrefix_iff)
      with t have "t = v @ (r @ w)" by (metis append.assoc)
      then have "HasPrefix t v" unfolding HasPrefix_iff by blast
      with v(1) show ?thesis by (auto simp: leadingSpace_None_iff)
    qed
  qed
qed

lemma TrimSpace_Nil_iff: "TrimSpace s = [] \<longleftrightarrow> whitespaceOnly s"
proof
  assume "TrimSpace s = []"
  then have "TrimLeftSpace s = []"
    using TrimRightSpace_Nil_leading [of "TrimLeftSpace s"] leadingSpace_TrimLeftSpace [of s]
    by (simp add: TrimSpace_def)
  then show "whitespaceOnly s" by (rule TrimLeftSpace_Nil_whitespaceOnly)
next
  assume "whitespaceOnly s"
  then show "TrimSpace s = []"
    by (simp add: TrimSpace_def whitespaceOnly_TrimLeftSpace TrimRightSpace_None trailingSpace_Nil)
qed


lemma plainByte_slash: "plainByte CHR ''/''"
  by (simp add: plainByte_def spaceRunes_def)

lemma plainByte_x: "plainByte CHR ''x''"
  by (simp add: plainByte_def spaceRunes_def)

lemma HasPrefix_snoc:
  assumes "c \<notin> set w"
  shows "HasPrefix (s @ [c]) w \<longleftrightarrow> HasPrefix s w"
proof
  assume "HasPrefix (s @ [c]) w"
  then obtain t where t: "s @ [c] = w @ t" by (auto simp: HasPrefix_iff)
  show "HasPrefix s w"
  proof (cases t rule: rev_cases)
    case Nil
    with t have "c \<in> set w" by (metis append_Nil2 in_set_conv_decomp)
    with assms show ?thesis by simp
  next
    case (snoc t' d)
    with t have "s = w @ t'" by simp
    then show ?thesis by (auto simp: HasPrefix_iff)
  qed
next
  assume "HasPrefix s w"
  then show "HasPrefix (s @ [c]) w" by (auto simp: HasPrefix_iff)
qed

lemma leadingSpace_snoc: "plainByte c \<Longrightarrow> leadingSpace (s @ [c]) = leadingSpace s"
  unfolding leadingSpace_def
  by (rule find_cong) (auto simp: plainByte_def HasPrefix_snoc)

lemma trailingSpace_snoc: "plainByte c \<Longrightarrow> trailingSpace (s @ [c]) = None"
proof -
  assume c: "plainByte c"
  have "\<not> HasSuffix (s @ [c]) w" if w: "w \<in> set spaceRunes" for w
  proof
    assume "HasSuffix (s @ [c]) w"
    then obtain t where t: "s @ [c] = t @ w" by (auto simp: HasSuffix_iff)
    from w have "w \<noteq> []" by (rule spaceRunes_nonempty)
    then obtain w' d where "w = w' @ [d]" by (cases w rule: rev_cases) auto
    with t have "c \<in> set w" by auto
    with c w show False by (auto simp: plainByte_def)
  qed
  then show ?thesis by (auto simp: trailingSpace_None_iff)
qed

lemma TrimLeftSpace_snoc: "plainByte c \<Longrightarrow> TrimLeftSpace (s @ [c]) = TrimLeftSpace s @ [c]"
proof (induction s rule: TrimLeftSpace.induct)
  case (1 s)
  show ?case
  proof (cases "leadingSpace s")
    case None
    with "1.prems" show ?thesis
      by (simp add: TrimLeftSpace_None leadingSpace_snoc)
  next
    case (Some w)
    then have len: "length w \<le> length s"
      using leadingSpace_SomeD by (auto simp: HasPrefix_def)
    have "TrimLeftSpace (s @ [c]) = TrimLeftSpace (drop (length w) (s @ [c]))"
      using Some "1.prems" by (subst TrimLeftSpace.simps) (simp add: leadingSpace_snoc)
    also have "\<dots> = TrimLeftSpace (drop (length w) s @ [c])"
      using len by simp
    also have "\<dots> = TrimLeftSpace (drop (length w) s) @ [c]"
      using "1.IH" Some "1.prems" by blast
    also have "TrimLeftSpace (drop (length w) s) = TrimLeftSpace s"
      using Some by (subst (2) TrimLeftSpace.simps) simp
    finally show ?thesis .
  qed
qed

lemma TrimSpace_snoc: "plainByte c \<Longrightarrow> TrimSpace (s @ [c]) = TrimLeftSpace s @ [c]"
  by (simp add: TrimSpace_def TrimLeftSpace_snoc TrimRightSpace_None trailingSpace_snoc)

lemma TrimSuffix_slash_snoc: "TrimSuffix (s @ ''/'') ''/'' = s"
  by (simp add: TrimSuffix_def HasSuffix_def)

lemma TrimSuffix_slash_other: "c \<noteq> CHR ''/'' \<Longrightarrow> TrimSuffix (s @ [c]) ''/'' = s @ [c]"
  by (simp add: TrimSuffix_def HasSuffix_def)

lemma normPath_slash: "normPath (s @ ''/'') = TrimLeftSpace s"
  by (simp add: normPath_def TrimSpace_snoc plainByte_slash TrimSuffix_slash_snoc)

lemma normPath_x: "normPath (s @ ''x'') = TrimLeftSpace s @ ''x''"
  by (simp add: normPath_def TrimSpace_snoc plainByte_x TrimSuffix_slash_other)

lemma normPath_space: "normPath ('' '' @ s) = normPath s"
proof -
  have "'' '' \<in> set spaceRunes" by (simp add: spaceRunes_def)
  then have "TrimLeftSpace ('' '' @ s) = TrimLeftSpace s"
    by (rule TrimLeftSpace_rune_append)
  then show ?thesis by (simp only: normPath_def TrimSpace_def)
qed

lemma length_TrimRightSpace: "length (TrimRightSpace s) \<le> length s"
proof (induction s rule: TrimRightSpace.induct)
  case (1 s)
  show ?case
  proof (cases "trailingSpace s")
    case None
    then show ?thesis by (simp add: TrimRightSpace_None)
  next
    case (Some w)
    with "1" have "length (TrimRightSpace (take (length s - length w) s)) \<le> length s"
      by fastforce
    with Some show ?thesis by (subst TrimRightSpace.simps) simp
  qed
qed

lemma length_TrimSuffix: "length (TrimSuffix s suf) \<le> length s"
  by (simp add: TrimSuffix_def)

lemma length_normPath_le: "length (normPath s) \<le> length (TrimLeftSpace s)"
  unfolding normPath_def TrimSpace_def
  using length_TrimSuffix length_TrimRightSpace le_trans by blast

lemma normPath_x_neq: "normPath (p @ ''x'') \<noteq> normPath p"
proof
  assume "normPath (p @ ''x'') = normPath p"
  then have "length (TrimLeftSpace p @ ''x'') = length (normPath p)"
    by (simp add: normPath_x)
  with length_normPath_le [of p] show False by simp
qed

lemma normPath_plain:
  assumes "trailingSpace p = None" and "\<not> HasSuffix p ''/''"
  shows "normPath p = TrimLeftSpace p"
proof -
  obtain pre where pre: "p = pre @ TrimLeftSpace p"
    using TrimLeftSpace_suffix by blast
  have "\<not> HasSuffix (TrimLeftSpace p) w" if "\<not> HasSuffix p w" for w
  proof
    assume "HasSuffix (TrimLeftSpace p) w"
    then obtain t where "TrimLeftSpace p = t @ w" by (auto simp: HasSuffix_iff)
    with pre have "p = (pre @ t) @ w" by (metis append.assoc)
    then have "HasSuffix p w" unfolding HasSuffix_iff by blast
    with that show False by simp
  qed
  with assms have "trailingSpace (TrimLeftSpace p) = None" "\<not> HasSuffix (TrimLeftSpace p) ''/''"
    by (auto simp: trailingSpace_None_iff)
  then show ?thesis
    by (simp add: normPath_def TrimSpace_def TrimRightSpace_None TrimSuffix_def)
qed

lemma pathLoop_iff: "pathLoop ps path \<longleftrightarrow> (\<exists>q \<in> set ps. normPath q = normPath path)"
  by (induction ps) (auto simp: normPath_def)

lemma isPathAllowed_iff:
  "isPathAllowed P path \<longleftrightarrow>
     len (allowedPaths P) = 0 \<or> (\<exists>q \<in> set (elems (allowedPaths P)). normPath q = normPath path)"
  by (simp add: isPathAllowed_def pathLoop_iff)

lemma whitespaceOnly_code [code]: "whitespaceOnly s \<longleftrightarrow> TrimSpace s = []"
  by (simp add: TrimSpace_Nil_iff)

lemma normPath_whitespaceOnly: "whitespaceOnly t \<Longrightarrow> normPath t = []"
  by (simp add: normPath_def TrimSuffix_def HasSuffix_def flip: TrimSpace_Nil_iff)

lemma normPath_whitespaceOnly_slash: "whitespaceOnly t \<Longrightarrow> normPath (t @ ''/'') = []"
  by (simp add: normPath_slash whitespaceOnly_TrimLeftSpace)

lemma normPath_only_slash: "normPath ''/'' = []"
  using normPath_whitespaceOnly_slash [OF whitespaceOnly.empty] by simp

lemma isPathAllowed_Some:
  "allowedPaths P = Some ps \<Longrightarrow> ps \<noteq> [] \<Longrightarrow>
     isPathAllowed P path \<longleftrightarrow> (\<exists>q \<in> set ps. normPath q = normPath path)"
  by (simp add: isPathAllowed_iff len_def elems_def)

lemma isPathAllowed_SomeI:
  "allowedPaths P = Some ps \<Longrightarrow> q \<in> set ps \<Longrightarrow> normPath q = normPath path \<Longrightarrow>
     isPathAllowed P path"
  by (auto simp: isPathAllowed_iff len_def elems_def)

subsection \<open>The path allow-list\<close>

text \<open>
  Claim C2, as the code has it. For a non-empty allow-list, a path is allowed exactly
  when its normal form (white space trimmed, then one trailing \<open>/\<close> removed) equals
  the normal form of some entry; there is no prefix matching. Every entry \<open>p\<close> is
  allowed, and so is \<open>p\<close> with a space in front. \<open>p\<close> followed by \<open>/\<close> is allowed
  when \<open>p\<close> itself does not end in \<open>/\<close> or in white space. \<open>p\<close> followed by \<open>x\<close> is
  allowed only when some other entry has the same normal form as it, so it is
  refused when \<open>p\<close> is the only entry. The entry \<open>/foo\<close> alone admits \<open>/foo\<close> and
  \<open>/foo/\<close> and refuses \<open>/foo/bar\<close>.
\<close>

theorem isPathAllowed_entries:
  assumes "allowedPaths P = Some ps" and "ps \<noteq> []"
  shows
  "(isPathAllowed P path \<longleftrightarrow> (\<exists>q \<in> set ps. normPath q = normPath path))
   \<and> (p \<in> set ps \<longrightarrow> isPathAllowed P p \<and> isPathAllowed P ('' '' @ p))
   \<and> (p \<in> set ps \<and> trailingSpace p = None \<and> \<not> HasSuffix p ''/'' \<longrightarrow>
        isPathAllowed P (p @ ''/''))
   \<and> (isPathAllowed P (p @ ''x'') \<longleftrightarrow>
        (\<exists>q \<in> set ps. q \<noteq> p \<and> normPath q = normPath (p @ ''x'')))
   \<and> (ps = [p] \<longrightarrow> \<not> isPathAllowed P (p @ ''x''))
   \<and> (ps = [''/foo''] \<longrightarrow>
        isPathAllowed P ''/foo'' \<and> isPathAllowed P ''/foo/'' \<and> \<not> isPathAllowed P ''/foo/bar'')"
proof -
  have iff: "isPathAllowed P s \<longleftrightarrow> (\<exists>q \<in> set ps. normPath q = normPath s)" for s
    by (rule isPathAllowed_Some [OF assms])
  define sp where "sp = '' '' @ p"
  define px where "px = p @ ''x''"
  define ps1 where "ps1 = p @ ''/''"
  have sp: "normPath p = normPath sp"
    unfolding sp_def by (simp only: normPath_space)
  have px: "normPath px \<noteq> normPath p"
    unfolding px_def by (rule normPath_x_neq)
  have b': "p \<in> set ps \<longrightarrow> isPathAllowed P p \<and> isPathAllowed P sp"
    unfolding iff using sp by blast
  have c': "p \<in> set ps \<and> trailingSpace p = None \<and> \<not> HasSuffix p ''/'' \<longrightarrow>
        isPathAllowed P ps1"
  proof
    assume h: "p \<in> set ps \<and> trailingSpace p = None \<and> \<not> HasSuffix p ''/''"
    then have "normPath p = TrimLeftSpace p"
      by (intro normPath_plain) simp_all
    then have "normPath p = normPath ps1"
      unfolding ps1_def by (simp only: normPath_slash)
    with h show "isPathAllowed P ps1" unfolding iff by blast
  qed
  have "q \<noteq> p" if "normPath q = normPath px" for q
    using that px by auto
  then have d': "isPathAllowed P px \<longleftrightarrow> (\<exists>q \<in> set ps. q \<noteq> p \<and> normPath q = normPath px)"
    unfolding iff by auto
  have e': "ps = [p] \<longrightarrow> \<not> isPathAllowed P px"
    unfolding d' by simp
  note b = b' [unfolded sp_def] and c = c' [unfolded ps1_def]
    and d = d' [unfolded px_def] and e = e' [unfolded px_def]
  have n1: "normPath ''/foo'' = ''/foo''" by code_simp
  have n2: "normPath ''/foo/'' = ''/foo''" by code_simp
  have n3: "normPath ''/foo/bar'' = ''/foo/bar''" by code_simp
  have f: "ps = [''/foo''] \<longrightarrow>
        isPathAllowed P ''/foo'' \<and> isPathAllowed P ''/foo/'' \<and> \<not> isPathAllowed P ''/foo/bar''"
    unfolding iff by (simp add: n1 n2 n3)
  from iff [of path] b c d e f show ?thesis by (intro conjI)
qed

theorem isPathAllowed_entries_witness:
  "isPathAllowed sampleProxy ''/repo1'' \<and> isPathAllowed sampleProxy ('' '' @ ''/repo1'')
   \<and> isPathAllowed sampleProxy (''/repo1'' @ ''/'')
   \<and> \<not> isPathAllowed sampleProxy (''/repo1'' @ ''x'')"
proof -
  have h1: "allowedPaths sampleProxy = Some [''/repo1'']" by (simp add: sampleProxy_def)
  have h2: "[''/repo1''] \<noteq> []" by simp
  have h3: "trailingSpace ''/repo1'' = None" by code_simp
  have h4: "\<not> HasSuffix ''/repo1'' ''/''" by code_simp
  show ?thesis
    using isPathAllowed_entries [OF h1 h2, of "''/repo1''" "''/repo1''"] h3 h4 by simp
qed

text \<open>
  The claim as first stated fails: the entry \<open>/foo/\<close> does not admit \<open>/foo//\<close>, and
  beside the entry \<open>/foo\<close> an entry \<open>/foox\<close> admits \<open>/foo\<close> followed by \<open>x\<close>.
\<close>

theorem isPathAllowed_entries_counterexample:
  "''/foo/'' \<in> set [''/foo/''] \<and>
   \<not> isPathAllowed (sampleProxy\<lparr>allowedPaths := Some [''/foo/'']\<rparr>) (''/foo/'' @ ''/'') \<and>
   ''/foo'' \<in> set [''/foo'', ''/foox''] \<and>
   isPathAllowed (sampleProxy\<lparr>allowedPaths := Some [''/foo'', ''/foox'']\<rparr>) (''/foo'' @ ''x'')"
  by code_simp

text \<open>
  Claim C3. When the allow-list is empty (a slice of length 0, nil or not), every
  path is allowed.
\<close>

theorem isPathAllowed_empty:
  "allowedPaths P = Some [] \<or> allowedPaths P = None \<Longrightarrow> isPathAllowed P p"
  by (auto simp: isPathAllowed_def len_def)

theorem isPathAllowed_empty_witness:
  "isPathAllowed (sampleProxy\<lparr>allowedPaths := Some []\<rparr>) ''/anything'' \<and>
   isPathAllowed (sampleProxy\<lparr>allowedPaths := None\<rparr>) ''/anything''"
  using isPathAllowed_empty [of "sampleProxy\<lparr>allowedPaths := Some []\<rparr>" "''/anything''"]
    isPathAllowed_empty [of "sampleProxy\<lparr>allowedPaths := None\<rparr>" "''/anything''"]
  by simp

text \<open>
  Claim C10. The normal form of \<open>/\<close> and of every white-space-only string, with or
  without a \<open>/\<close> after it, is the empty string. So when the allow-list holds \<open>/\<close> or
  a white-space-only entry, the empty path, \<open>/\<close> and every white-space-only path are
  allowed; and when it holds the empty string, \<open>/\<close> is allowed.
\<close>

theorem isPathAllowed_blank:
  "normPath ''/'' = []
   \<and> (whitespaceOnly t \<longrightarrow> normPath t = [] \<and> normPath (t @ ''/'') = [])
   \<and> (allowedPaths P = Some ps \<and> e \<in> set ps \<and> (e = ''/'' \<or> whitespaceOnly e) \<and>
       whitespaceOnly t \<longrightarrow>
        isPathAllowed P [] \<and> isPathAllowed P ''/'' \<and> isPathAllowed P t)
   \<and> (allowedPaths P = Some ps \<and> [] \<in> set ps \<longrightarrow> isPathAllowed P ''/'')"
proof -
  have n0: "normPath [] = []"
    using normPath_whitespaceOnly [OF whitespaceOnly.empty] .
  have blank: "normPath e = []" if "e = ''/'' \<or> whitespaceOnly e" for e
    using that normPath_only_slash normPath_whitespaceOnly by blast
  have c: "isPathAllowed P [] \<and> isPathAllowed P ''/'' \<and> isPathAllowed P t"
    if "allowedPaths P = Some ps" "e \<in> set ps" "e = ''/'' \<or> whitespaceOnly e" "whitespaceOnly t"
    using that blank [of e] n0 normPath_only_slash normPath_whitespaceOnly [of t]
      isPathAllowed_SomeI [of P ps e] by simp
  have d: "isPathAllowed P ''/''" if "allowedPaths P = Some ps" "[] \<in> set ps"
    using that n0 normPath_only_slash isPathAllowed_SomeI [of P ps "[]"] by simp
  show ?thesis
    using normPath_only_slash normPath_whitespaceOnly normPath_whitespaceOnly_slash c d
    by blast
qed

theorem isPathAllowed_blank_witness:
  "isPathAllowed (sampleProxy\<lparr>allowedPaths := Some [''/repo1'', ''/'']\<rparr>) [] \<and>
   isPathAllowed (sampleProxy\<lparr>allowedPaths := Some [''/repo1'', ''/'']\<rparr>) ''/'' \<and>
   isPathAllowed (sampleProxy\<lparr>allowedPaths := Some [''/repo1'', ''/'']\<rparr>) [CHR 0x09, CHR 0x20] \<and>
   normPath [CHR 0x09, CHR 0x20] = [] \<and> normPath ([CHR 0x09, CHR 0x20] @ ''/'') = [] \<and>
   isPathAllowed (sampleProxy\<lparr>allowedPaths := Some [[]]\<rparr>) ''/''"
proof -
  have w: "whitespaceOnly [CHR 0x09, CHR 0x20]" by code_simp
  have a: "allowedPaths (sampleProxy\<lparr>allowedPaths := Some [''/repo1'', ''/'']\<rparr>) =
             Some [''/repo1'', ''/'']" by simp
  have b: "allowedPaths (sampleProxy\<lparr>allowedPaths := Some [[]]\<rparr>) = Some [[]]" by simp
  show ?thesis
    using isPathAllowed_blank [of "[CHR 0x09, CHR 0x20]"
        "sampleProxy\<lparr>allowedPaths := Some [''/repo1'', ''/'']\<rparr>" "[''/repo1'', ''/'']" "''/''"]
      isPathAllowed_blank [of "[CHR 0x09, CHR 0x20]"
        "sampleProxy\<lparr>allowedPaths := Some [[]]\<rparr>" "[[]]" "[]"] w a b
    by simp
qed


subsection \<open>NewProxy and redirect: auxiliary facts\<close>

lemma NewProxy_Inl_iff:
  "(\<exists>e. NewProxy u a p s = Inl e) \<longleftrightarrow>
     whitespaceOnly s \<or> whitespaceOnly u \<or> whitespaceOnly p \<or> a = None"
  by (simp add: NewProxy_def TrimSpace_Nil_iff)

lemma NewProxy_Inr:
  "\<not> whitespaceOnly s \<Longrightarrow> \<not> whitespaceOnly u \<Longrightarrow> \<not> whitespaceOnly p \<Longrightarrow> a \<noteq> None \<Longrightarrow>
     NewProxy u a p s =
       Inr \<lparr>provider = p, upstreamURL = u, allowedPaths = a, secret = s,
            httpClient = \<lparr>Timeout = time_Second * 60\<rparr>\<rparr>"
  by (simp add: NewProxy_def TrimSpace_Nil_iff)

lemma NewProxy_InrD:
  "NewProxy u a p s = Inr P \<Longrightarrow>
     P = \<lparr>provider = p, upstreamURL = u, allowedPaths = a, secret = s,
          httpClient = \<lparr>Timeout = time_Second * 60\<rparr>\<rparr>"
  by (simp add: NewProxy_def split: if_splits)

lemma addHeaders_eq:
  "addHeaders env kvs (req, tr) =
     (foldl (\<lambda>r (k, v). Header_Add env r k v) req kvs,
      tr @ map (\<lambda>(k, v). HeaderAddCall k v) kvs)"
  by (induction kvs arbitrary: req tr) auto

lemma redirect_parse_error:
  "url_Parse env (upstreamURL P @ path) = Inl e \<Longrightarrow>
     redirect env P (Some h) path = (Inl e, [UrlParseCall (upstreamURL P @ path)])"
  by (simp add: redirect_def)

lemma redirect_request_error:
  "url_Parse env (upstreamURL P @ path) = Inr u \<Longrightarrow>
   http_NewRequest env (RequestMethod h)
     (url_String env (if Scheme u = [] then u\<lparr>Scheme := ''http''\<rparr> else u)) (Payload h) = Inl e \<Longrightarrow>
     redirect env P (Some h) path =
       (Inl e, [UrlParseCall (upstreamURL P @ path),
                NewRequestCall (RequestMethod h)
                  (url_String env (if Scheme u = [] then u\<lparr>Scheme := ''http''\<rparr> else u))
                  (Payload h)])"
  by (simp add: redirect_def Let_def)

lemma redirect_sent:
  assumes "url_Parse env (upstreamURL P @ path) = Inr u"
    and "http_NewRequest env (RequestMethod h)
      (url_String env (if Scheme u = [] then u\<lparr>Scheme := ''http''\<rparr> else u)) (Payload h) = Inr req"
    and "adds = (case map_of (Headers h) (ContentTypeHeader env) of
                   None \<Rightarrow> [] | Some v \<Rightarrow> [(ContentTypeHeader env, v)]) @ Headers h"
    and "sent = foldl (\<lambda>r (k, v). Header_Add env r k v) req adds"
  shows "redirect env P (Some h) path =
       (Do env (httpClient P) sent,
        [UrlParseCall (upstreamURL P @ path),
         NewRequestCall (RequestMethod h)
           (url_String env (if Scheme u = [] then u\<lparr>Scheme := ''http''\<rparr> else u)) (Payload h)]
        @ map (\<lambda>(k, v). HeaderAddCall k v) adds
        @ [ClientDoCall (httpClient P) sent])"
  using assms by (simp add: redirect_def Let_def addHeaders_eq split: option.split)

lemma redirect_first_call:
  "\<exists>rest. snd (redirect env P (Some h) path) = UrlParseCall (upstreamURL P @ path) # rest"
proof (cases "url_Parse env (upstreamURL P @ path)")
  case (Inl e)
  then show ?thesis by (simp add: redirect_parse_error)
next
  case (Inr u)
  show ?thesis
  proof (cases "http_NewRequest env (RequestMethod h)
      (url_String env (if Scheme u = [] then u\<lparr>Scheme := ''http''\<rparr> else u)) (Payload h)")
    case (Inl e)
    with Inr show ?thesis by (simp only: redirect_request_error) simp
  next
    case req: (Inr req)
    show ?thesis
      by (simp only: redirect_sent [OF Inr req refl refl]) simp
  qed
qed


subsection \<open>NewProxy\<close>

text \<open>
  Claim C4. \<^verbatim>\<open>NewProxy\<close> returns an error, and no Proxy, when the secret, the
  upstream URL or the provider is blank or white-space-only, or when the allowed
  paths are the nil slice. When all four are supplied (the allowed paths being any
  non-nil slice, the empty one included) it returns the Proxy and no error.
\<close>

theorem NewProxy_validation:
  "(whitespaceOnly secret' \<or> whitespaceOnly upstreamURL' \<or> whitespaceOnly provider' \<or>
      allowedPaths' = None \<longrightarrow>
      (\<exists>e. NewProxy upstreamURL' allowedPaths' provider' secret' = Inl e))
   \<and> (\<not> whitespaceOnly secret' \<and> \<not> whitespaceOnly upstreamURL' \<and> \<not> whitespaceOnly provider' \<and>
       allowedPaths' = Some ps \<longrightarrow>
      NewProxy upstreamURL' allowedPaths' provider' secret' =
        Inr \<lparr>provider = provider', upstreamURL = upstreamURL', allowedPaths = Some ps,
             secret = secret', httpClient = \<lparr>Timeout = time_Second * 60\<rparr>\<rparr>)"
  using NewProxy_Inl_iff [of upstreamURL' allowedPaths' provider' secret']
    NewProxy_Inr [of secret' upstreamURL' provider' allowedPaths']
  by auto

theorem NewProxy_validation_witness:
  "(\<exists>e. NewProxy ''upstream:8080'' (Some [''/repo1'']) ''github'' [CHR 0x20, CHR 0x09] = Inl e)
   \<and> (\<exists>e. NewProxy [] (Some [''/repo1'']) ''github'' ''s3cret'' = Inl e)
   \<and> (\<exists>e. NewProxy ''upstream:8080'' (Some [''/repo1'']) '' '' ''s3cret'' = Inl e)
   \<and> (\<exists>e. NewProxy ''upstream:8080'' None ''github'' ''s3cret'' = Inl e)
   \<and> NewProxy ''upstream:8080'' (Some []) ''github'' ''s3cret'' =
        Inr (sampleProxy\<lparr>allowedPaths := Some []\<rparr>)"
proof -
  have w1: "whitespaceOnly [CHR 0x20, CHR 0x09]" by code_simp
  have w2: "whitespaceOnly []" by (rule whitespaceOnly.empty)
  have w3: "whitespaceOnly '' ''" by code_simp
  have n1: "\<not> whitespaceOnly ''s3cret''" by code_simp
  have n2: "\<not> whitespaceOnly ''upstream:8080''" by code_simp
  have n3: "\<not> whitespaceOnly ''github''" by code_simp
  show ?thesis
    using NewProxy_validation [of "[CHR 0x20, CHR 0x09]" "''upstream:8080''" "''github''"
        "Some [''/repo1'']"]
      NewProxy_validation [of "''s3cret''" "[]" "''github''" "Some [''/repo1'']"]
      NewProxy_validation [of "''s3cret''" "''upstream:8080''" "'' ''" "Some [''/repo1'']"]
      NewProxy_validation [of "''s3cret''" "''upstream:8080''" "''github''" "None"]
      NewProxy_validation [of "''s3cret''" "''upstream:8080''" "''github''" "Some []" "[]"]
      w1 w2 w3 n1 n2 n3
    by (simp add: sampleProxy_def)
qed


text \<open>
  Claim C9. A Proxy returned by \<^verbatim>\<open>NewProxy\<close> holds the provider, upstream URL,
  allowed paths and secret exactly as passed, untrimmed, and \<^verbatim>\<open>redirect\<close> hands
  \<^verbatim>\<open>url.Parse\<close> that upstream URL followed by the path. The padded upstream URL
  \<open>" http://u"\<close> is accepted and stored as it is.
\<close>

theorem NewProxy_verbatim:
  "(NewProxy upstreamURL' allowedPaths' provider' secret' = Inr P \<longrightarrow>
      provider P = provider' \<and> upstreamURL P = upstreamURL' \<and>
      allowedPaths P = allowedPaths' \<and> secret P = secret' \<and>
      (\<exists>rest. snd (redirect env P (Some h) path) = UrlParseCall (upstreamURL' @ path) # rest))
   \<and> (\<not> whitespaceOnly provider' \<and> \<not> whitespaceOnly secret' \<and> allowedPaths' \<noteq> None \<longrightarrow>
      (\<exists>Q. NewProxy '' http://u'' allowedPaths' provider' secret' = Inr Q \<and>
           upstreamURL Q = '' http://u''))"
proof -
  have a: "provider P = provider' \<and> upstreamURL P = upstreamURL' \<and>
      allowedPaths P = allowedPaths' \<and> secret P = secret' \<and>
      (\<exists>rest. snd (redirect env P (Some h) path) = UrlParseCall (upstreamURL' @ path) # rest)"
    if "NewProxy upstreamURL' allowedPaths' provider' secret' = Inr P"
  proof -
    from that have P: "P = \<lparr>provider = provider', upstreamURL = upstreamURL',
        allowedPaths = allowedPaths', secret = secret',
        httpClient = \<lparr>Timeout = time_Second * 60\<rparr>\<rparr>"
      by (rule NewProxy_InrD)
    then have "upstreamURL P = upstreamURL'" by simp
    with redirect_first_call [of env P h path] P show ?thesis by simp
  qed
  have u: "\<not> whitespaceOnly '' http://u''" by code_simp
  have b: "\<exists>Q. NewProxy '' http://u'' allowedPaths' provider' secret' = Inr Q \<and>
           upstreamURL Q = '' http://u''"
    if "\<not> whitespaceOnly provider' \<and> \<not> whitespaceOnly secret' \<and> allowedPaths' \<noteq> None"
    using that u NewProxy_Inr [of secret' "'' http://u''" provider' allowedPaths'] by simp
  from a b show ?thesis by blast
qed

theorem NewProxy_verbatim_witness:
  "NewProxy '' http://u'' (Some [''/repo1'']) ''github'' ''s3cret'' =
     Inr (sampleProxy\<lparr>upstreamURL := '' http://u''\<rparr>)
   \<and> (\<exists>rest. snd (redirect sampleEnv (sampleProxy\<lparr>upstreamURL := '' http://u''\<rparr>)
              (Some \<lparr>RequestMethod = ''POST'', Headers = [], Payload = ''{}''\<rparr>) ''/repo1'') =
          UrlParseCall ('' http://u'' @ ''/repo1'') # rest)"
proof -
  have n1: "\<not> whitespaceOnly ''s3cret''" by code_simp
  have n2: "\<not> whitespaceOnly '' http://u''" by code_simp
  have n3: "\<not> whitespaceOnly ''github''" by code_simp
  have eq: "NewProxy '' http://u'' (Some [''/repo1'']) ''github'' ''s3cret'' =
     Inr (sampleProxy\<lparr>upstreamURL := '' http://u''\<rparr>)"
    using n1 n2 n3 by (simp add: NewProxy_def sampleProxy_def TrimSpace_Nil_iff)
  show ?thesis
    using NewProxy_verbatim [of "'' http://u''" "Some [''/repo1'']" "''github''" "''s3cret''"
        "sampleProxy\<lparr>upstreamURL := '' http://u''\<rparr>" sampleEnv
        "\<lparr>RequestMethod = ''POST'', Headers = [], Payload = ''{}''\<rparr>" "''/repo1''"] eq
    by simp
qed


subsection \<open>redirect\<close>

lemma headerAdds_append: "headerAdds (xs @ ys) = headerAdds xs @ headerAdds ys"
  by (induction xs rule: headerAdds.induct) simp_all

lemma headerAdds_map: "headerAdds (map (\<lambda>(k, v). HeaderAddCall k v) kvs) = kvs"
  by (induction kvs) auto

lemma count_list_distinct_keys:
  "distinct (map fst kvs) \<Longrightarrow> (k, v) \<in> set kvs \<Longrightarrow> count_list kvs (k, v) = 1"
proof (induction kvs)
  case Nil
  then show ?case by simp
next
  case (Cons a kvs)
  show ?case
  proof (cases "a = (k, v)")
    case True
    with Cons.prems have "(k, v) \<notin> set kvs" by force
    then have "count_list kvs (k, v) = 0" by (simp add: count_list_0_iff)
    with True show ?thesis by simp
  next
    case False
    with Cons show ?thesis by simp
  qed
qed

lemma valuesOf_Header_Add:
  "valuesOf (Header (Header_Add env req k v)) key =
     valuesOf (Header req) key @ (if CanonicalMIMEHeaderKey env k = key then [v] else [])"
  by (simp add: Header_Add_def Let_def valuesOf_def)

lemma Header_Add_fields:
  "Method (Header_Add env req k v) = Method req"
  "URL (Header_Add env req k v) = URL req"
  "Body (Header_Add env req k v) = Body req"
  by (simp_all add: Header_Add_def Let_def)

lemma foldl_Header_Add_fields:
  "Method (foldl (\<lambda>r (k, v). Header_Add env r k v) req kvs) = Method req \<and>
   URL (foldl (\<lambda>r (k, v). Header_Add env r k v) req kvs) = URL req \<and>
   Body (foldl (\<lambda>r (k, v). Header_Add env r k v) req kvs) = Body req"
  by (induction kvs arbitrary: req) (auto simp: Header_Add_fields)

lemma foldl_Header_Add_values:
  "valuesOf (Header (foldl (\<lambda>r (k, v). Header_Add env r k v) req kvs)) key =
     valuesOf (Header req) key @
     map snd (filter (\<lambda>(k, v). CanonicalMIMEHeaderKey env k = key) kvs)"
  by (induction kvs arbitrary: req) (auto simp: valuesOf_Header_Add)


lemma sampleRequest_Path: "Path (URL (sampleRequest path sig payload)) = path"
  by (simp add: sampleRequest_def blankURL_def)

lemma sampleEnv_NewProvider:
  "NewProvider sampleEnv name sec =
     (if name = ''github'' then Inr name else Inl (Err ''unknown provider''))"
  by (simp add: sampleEnv_def)

lemma sampleEnv_Parse:
  "Parse sampleEnv (sampleRequest path sig payload) prov =
     (if payload = [] then Inl (Err ''empty body'') else Inr (sampleHook sig payload))"
  by (simp add: sampleEnv_def sampleRequest_def sampleHook_def valuesOf_def)

lemma sampleEnv_Validate:
  "Validate sampleEnv prov (sampleHook sig payload) \<longleftrightarrow> sig = ''sha1=good''"
  by (simp add: sampleEnv_def sampleHook_def)

lemma sampleEnv_Do:
  "Do sampleEnv c req =
     (if Body req = ''down'' then Inl (Err ''connection refused'')
      else if Body req = ''busy''
        then Inr \<lparr>StatusCode = 503, Status = ''503 Service Unavailable''\<rparr>
      else Inr \<lparr>StatusCode = 200, Status = ''200 OK''\<rparr>)"
  by (simp add: sampleEnv_def)

lemma sampleEnv_redirect:
  assumes "CHR '' '' \<notin> set path"
  shows "fst (redirect sampleEnv sampleProxy (Some (sampleHook sig payload)) path) =
     (if payload = ''down'' then Inl (Err ''connection refused'')
      else if payload = ''busy''
        then Inr \<lparr>StatusCode = 503, Status = ''503 Service Unavailable''\<rparr>
      else Inr \<lparr>StatusCode = 200, Status = ''200 OK''\<rparr>)"
proof -
  let ?u = "blankURL\<lparr>Path := ''upstream:8080'' @ path\<rparr>"
  let ?req = "\<lparr>Method = ''POST'',
      URL = blankURL\<lparr>Path := ''http://upstream:8080'' @ path\<rparr>,
      Header = Map.empty, Body = payload\<rparr>"
  have p1: "url_Parse sampleEnv (upstreamURL sampleProxy @ path) = Inr ?u"
    using assms by (simp add: sampleEnv_def sampleProxy_def)
  have p2: "http_NewRequest sampleEnv (RequestMethod (sampleHook sig payload))
         (url_String sampleEnv (if Scheme ?u = [] then ?u\<lparr>Scheme := ''http''\<rparr> else ?u))
         (Payload (sampleHook sig payload)) = Inr ?req"
    by (simp add: sampleEnv_def sampleHook_def blankURL_def)
  define adds where "adds =
      (case map_of (Headers (sampleHook sig payload)) (ContentTypeHeader sampleEnv) of
         None \<Rightarrow> [] | Some v \<Rightarrow> [(ContentTypeHeader sampleEnv, v)])
      @ Headers (sampleHook sig payload)"
  define sent where "sent = foldl (\<lambda>r (k, v). Header_Add sampleEnv r k v) ?req adds"
  have body: "Body sent = payload"
    unfolding sent_def using foldl_Header_Add_fields [of sampleEnv ?req adds] by simp
  have "fst (redirect sampleEnv sampleProxy (Some (sampleHook sig payload)) path) =
      Do sampleEnv (httpClient sampleProxy) sent"
    unfolding redirect_sent [OF p1 p2 adds_def sent_def] by simp
  then show ?thesis by (simp only: sampleEnv_Do body)
qed


lemma redirect_calls_nonempty:
  "filter isRedirectCall (snd (redirect env P (Some h) path)) \<noteq> []"
proof -
  obtain rest where "snd (redirect env P (Some h) path) =
      UrlParseCall (upstreamURL P @ path) # rest"
    using redirect_first_call by blast
  then show ?thesis by simp
qed


text \<open>
  Claim C5. With a hook present, \<^verbatim>\<open>redirect\<close> first parses the upstream URL
  followed by the path (plain concatenation) and returns the parser's error when
  that fails. Otherwise it calls \<^verbatim>\<open>http.NewRequest\<close> with the hook's request method,
  the parsed URL (its scheme set to \<open>http\<close> when it was empty) and the hook's payload
  as body, and the request it hands to the HTTP client has the method, URL and body
  of the request so made.
\<close>

theorem redirect_target:
  "(\<exists>rest. snd (redirect env P (Some h) path) = UrlParseCall (upstreamURL P @ path) # rest)
   \<and> (url_Parse env (upstreamURL P @ path) = Inl e \<longrightarrow>
        redirect env P (Some h) path = (Inl e, [UrlParseCall (upstreamURL P @ path)]))
   \<and> (url_Parse env (upstreamURL P @ path) = Inr u \<longrightarrow>
        (\<exists>rest. snd (redirect env P (Some h) path) =
           UrlParseCall (upstreamURL P @ path) #
           NewRequestCall (RequestMethod h)
             (url_String env (if Scheme u = [] then u\<lparr>Scheme := ''http''\<rparr> else u))
             (Payload h) # rest))
   \<and> (url_Parse env (upstreamURL P @ path) = Inr u \<and>
       http_NewRequest env (RequestMethod h)
         (url_String env (if Scheme u = [] then u\<lparr>Scheme := ''http''\<rparr> else u))
         (Payload h) = Inr req \<longrightarrow>
        (\<exists>pre sent. redirect env P (Some h) path =
             (Do env (httpClient P) sent, pre @ [ClientDoCall (httpClient P) sent]) \<and>
           Method sent = Method req \<and> URL sent = URL req \<and> Body sent = Body req))"
proof -
  let ?target = "upstreamURL P @ path"
  let ?u = "if Scheme u = [] then u\<lparr>Scheme := ''http''\<rparr> else u"
  let ?new = "NewRequestCall (RequestMethod h) (url_String env ?u) (Payload h)"
  have a: "\<exists>rest. snd (redirect env P (Some h) path) = UrlParseCall ?target # rest"
    by (rule redirect_first_call)
  have b: "url_Parse env ?target = Inl e \<longrightarrow>
        redirect env P (Some h) path = (Inl e, [UrlParseCall ?target])"
    by (simp add: redirect_parse_error)
  have d: "\<exists>pre sent. redirect env P (Some h) path =
             (Do env (httpClient P) sent, pre @ [ClientDoCall (httpClient P) sent]) \<and>
           Method sent = Method req \<and> URL sent = URL req \<and> Body sent = Body req"
    and d': "\<exists>rest. snd (redirect env P (Some h) path) = UrlParseCall ?target # ?new # rest"
    if ok: "url_Parse env ?target = Inr u"
      "http_NewRequest env (RequestMethod h) (url_String env ?u) (Payload h) = Inr req"
    for req
  proof -
    note sent = redirect_sent [OF ok refl refl]
    show "\<exists>pre sent. redirect env P (Some h) path =
             (Do env (httpClient P) sent, pre @ [ClientDoCall (httpClient P) sent]) \<and>
           Method sent = Method req \<and> URL sent = URL req \<and> Body sent = Body req"
      unfolding sent using foldl_Header_Add_fields [of env req] by (metis append.assoc)
    show "\<exists>rest. snd (redirect env P (Some h) path) = UrlParseCall ?target # ?new # rest"
      unfolding sent by simp
  qed
  have c: "url_Parse env ?target = Inr u \<longrightarrow>
        (\<exists>rest. snd (redirect env P (Some h) path) = UrlParseCall ?target # ?new # rest)"
  proof
    assume ok: "url_Parse env ?target = Inr u"
    show "\<exists>rest. snd (redirect env P (Some h) path) = UrlParseCall ?target # ?new # rest"
    proof (cases "http_NewRequest env (RequestMethod h) (url_String env ?u) (Payload h)")
      case (Inl e')
      show ?thesis unfolding redirect_request_error [OF ok Inl] by simp
    next
      case (Inr req')
      with ok show ?thesis by (rule d')
    qed
  qed
  from a b c d show ?thesis by blast
qed

theorem redirect_target_witness:
  "(\<exists>rest. snd (redirect sampleEnv sampleProxy (Some (sampleHook ''sha1=good'' ''{}'')) ''/repo1'') =
      UrlParseCall ''upstream:8080/repo1'' #
      NewRequestCall ''POST'' ''http://upstream:8080/repo1'' ''{}'' # rest)
   \<and> (\<exists>pre sent. redirect sampleEnv sampleProxy (Some (sampleHook ''sha1=good'' ''{}'')) ''/repo1'' =
         (Do sampleEnv (httpClient sampleProxy) sent,
          pre @ [ClientDoCall (httpClient sampleProxy) sent]) \<and>
         Method sent = ''POST'' \<and>
         URL sent = blankURL\<lparr>Path := ''http://upstream:8080/repo1''\<rparr> \<and> Body sent = ''{}'')
   \<and> redirect sampleEnv sampleProxy (Some (sampleHook ''sha1=good'' ''{}'')) ''/bad path'' =
       (Inl (Err ''invalid character in URL''), [UrlParseCall ''upstream:8080/bad path''])"
proof -
  have p1: "url_Parse sampleEnv (upstreamURL sampleProxy @ ''/repo1'') =
      Inr (blankURL\<lparr>Path := ''upstream:8080/repo1''\<rparr>)"
    by (simp add: sampleEnv_def sampleProxy_def)
  have p2: "http_NewRequest sampleEnv (RequestMethod (sampleHook ''sha1=good'' ''{}''))
         (url_String sampleEnv
            (if Scheme (blankURL\<lparr>Path := ''upstream:8080/repo1''\<rparr>) = []
             then blankURL\<lparr>Path := ''upstream:8080/repo1''\<rparr>\<lparr>Scheme := ''http''\<rparr>
             else blankURL\<lparr>Path := ''upstream:8080/repo1''\<rparr>))
         (Payload (sampleHook ''sha1=good'' ''{}'')) =
       Inr \<lparr>Method = ''POST'', URL = blankURL\<lparr>Path := ''http://upstream:8080/repo1''\<rparr>,
            Header = Map.empty, Body = ''{}''\<rparr>"
    by (simp add: sampleEnv_def sampleHook_def blankURL_def)
  have p3: "url_Parse sampleEnv (upstreamURL sampleProxy @ ''/bad path'') =
      Inl (Err ''invalid character in URL'')"
    by (simp add: sampleEnv_def sampleProxy_def)
  have s: "url_String sampleEnv
            (if Scheme (blankURL\<lparr>Path := ''upstream:8080/repo1''\<rparr>) = []
             then blankURL\<lparr>Path := ''upstream:8080/repo1''\<rparr>\<lparr>Scheme := ''http''\<rparr>
             else blankURL\<lparr>Path := ''upstream:8080/repo1''\<rparr>) = ''http://upstream:8080/repo1''"
    by (simp add: sampleEnv_def blankURL_def)
  have m: "RequestMethod (sampleHook ''sha1=good'' ''{}'') = ''POST''" "Payload (sampleHook ''sha1=good'' ''{}'') = ''{}''"
    "upstreamURL sampleProxy @ ''/repo1'' = ''upstream:8080/repo1''"
    "upstreamURL sampleProxy @ ''/bad path'' = ''upstream:8080/bad path''"
    by (simp_all add: sampleHook_def sampleProxy_def)
  note t1 = redirect_target [of sampleEnv sampleProxy "sampleHook ''sha1=good'' ''{}''" "''/repo1''" "Err []"
      "blankURL\<lparr>Path := ''upstream:8080/repo1''\<rparr>"
      "\<lparr>Method = ''POST'', URL = blankURL\<lparr>Path := ''http://upstream:8080/repo1''\<rparr>,
            Header = Map.empty, Body = ''{}''\<rparr>"]
  note t2 = redirect_target [of sampleEnv sampleProxy "sampleHook ''sha1=good'' ''{}''" "''/bad path''"
      "Err ''invalid character in URL''"]
  have a: "\<exists>rest. snd (redirect sampleEnv sampleProxy (Some (sampleHook ''sha1=good'' ''{}'')) ''/repo1'') =
      UrlParseCall ''upstream:8080/repo1'' #
      NewRequestCall ''POST'' ''http://upstream:8080/repo1'' ''{}'' # rest"
    using t1 [THEN conjunct2, THEN conjunct2, THEN conjunct1] p1
    by (simp only: s m)
  have b: "\<exists>pre sent. redirect sampleEnv sampleProxy (Some (sampleHook ''sha1=good'' ''{}'')) ''/repo1'' =
         (Do sampleEnv (httpClient sampleProxy) sent,
          pre @ [ClientDoCall (httpClient sampleProxy) sent]) \<and>
         Method sent = ''POST'' \<and>
         URL sent = blankURL\<lparr>Path := ''http://upstream:8080/repo1''\<rparr> \<and> Body sent = ''{}''"
    using t1 [THEN conjunct2, THEN conjunct2, THEN conjunct2] p1 p2
    by (simp add: m)
  have c: "redirect sampleEnv sampleProxy (Some (sampleHook ''sha1=good'' ''{}'')) ''/bad path'' =
       (Inl (Err ''invalid character in URL''), [UrlParseCall ''upstream:8080/bad path''])"
    using t2 [THEN conjunct2, THEN conjunct1] p3 by (simp only: m)
  from a b c show ?thesis by (intro conjI)
qed


text \<open>
  Claim C6. When the request was made, the \<^verbatim>\<open>Header.Add\<close> calls of \<^verbatim>\<open>redirect\<close> are:
  the content-type entry of the hook's headers, if there is one, and then every
  entry of the hook's headers. So the content-type entry is added twice and every
  other entry once; and the request handed to the HTTP client holds, under each
  canonical key, the values it had followed by the values so added.
\<close>

theorem redirect_headers:
  assumes "url_Parse env (upstreamURL P @ path) = Inr u"
    and "http_NewRequest env (RequestMethod h)
      (url_String env (if Scheme u = [] then u\<lparr>Scheme := ''http''\<rparr> else u)) (Payload h) = Inr req"
    and "distinct (map fst (Headers h))"
  shows
  "headerAdds (snd (redirect env P (Some h) path)) =
      (case map_of (Headers h) (ContentTypeHeader env) of
         None \<Rightarrow> [] | Some v \<Rightarrow> [(ContentTypeHeader env, v)]) @ Headers h
   \<and> (map_of (Headers h) (ContentTypeHeader env) = Some v \<longrightarrow>
        count_list (headerAdds (snd (redirect env P (Some h) path))) (ContentTypeHeader env, v) = 2)
   \<and> ((k, v') \<in> set (Headers h) \<and> k \<noteq> ContentTypeHeader env \<longrightarrow>
        count_list (headerAdds (snd (redirect env P (Some h) path))) (k, v') = 1)
   \<and> (\<exists>pre sent. snd (redirect env P (Some h) path) = pre @ [ClientDoCall (httpClient P) sent] \<and>
        valuesOf (Header sent) key =
          valuesOf (Header req) key @
          map snd (filter (\<lambda>(k, v). CanonicalMIMEHeaderKey env k = key)
                     (headerAdds (snd (redirect env P (Some h) path)))))"
proof -
  define adds where "adds = (case map_of (Headers h) (ContentTypeHeader env) of
         None \<Rightarrow> [] | Some v \<Rightarrow> [(ContentTypeHeader env, v)]) @ Headers h"
  define sent where "sent = foldl (\<lambda>r (k, v). Header_Add env r k v) req adds"
  note run = redirect_sent [OF assms(1,2) adds_def sent_def]
  have adds: "headerAdds (snd (redirect env P (Some h) path)) = adds"
    unfolding run by (simp add: headerAdds_append headerAdds_map)
  have one: "count_list (Headers h) (k, w) = 1" if "(k, w) \<in> set (Headers h)" for k w
    using assms(3) that by (rule count_list_distinct_keys)
  have ct: "count_list adds (ContentTypeHeader env, v) = 2"
    if "map_of (Headers h) (ContentTypeHeader env) = Some v"
  proof -
    from that have "(ContentTypeHeader env, v) \<in> set (Headers h)" by (rule map_of_SomeD)
    then have "count_list (Headers h) (ContentTypeHeader env, v) = 1" by (rule one)
    with that show ?thesis by (simp add: adds_def)
  qed
  have other: "count_list adds (k, v') = 1"
    if "(k, v') \<in> set (Headers h) \<and> k \<noteq> ContentTypeHeader env"
    using that one [of k v'] by (simp add: adds_def split: option.split)
  have last: "\<exists>pre sent. snd (redirect env P (Some h) path) =
        pre @ [ClientDoCall (httpClient P) sent] \<and>
        valuesOf (Header sent) key =
          valuesOf (Header req) key @
          map snd (filter (\<lambda>(k, v). CanonicalMIMEHeaderKey env k = key) adds)"
  proof (intro exI conjI)
    show "snd (redirect env P (Some h) path) =
      ([UrlParseCall (upstreamURL P @ path),
         NewRequestCall (RequestMethod h)
           (url_String env (if Scheme u = [] then u\<lparr>Scheme := ''http''\<rparr> else u)) (Payload h)]
        @ map (\<lambda>(k, v). HeaderAddCall k v) adds) @ [ClientDoCall (httpClient P) sent]"
      unfolding run by simp
    show "valuesOf (Header sent) key =
          valuesOf (Header req) key @
          map snd (filter (\<lambda>(k, v). CanonicalMIMEHeaderKey env k = key) adds)"
      unfolding sent_def by (rule foldl_Header_Add_values)
  qed
  show ?thesis
    unfolding adds using ct other last by (simp add: adds_def)
qed

theorem redirect_headers_witness:
  "headerAdds (snd (redirect sampleEnv sampleProxy (Some (sampleHook ''sha1=good'' ''{}'')) ''/repo1'')) =
     [(''Content-Type'', ''application/json''), (''X-Hub-Signature'', ''sha1=good''),
      (''Content-Type'', ''application/json'')]
   \<and> count_list (headerAdds (snd (redirect sampleEnv sampleProxy (Some (sampleHook ''sha1=good'' ''{}'')) ''/repo1'')))
        (''Content-Type'', ''application/json'') = 2
   \<and> count_list (headerAdds (snd (redirect sampleEnv sampleProxy (Some (sampleHook ''sha1=good'' ''{}'')) ''/repo1'')))
        (''X-Hub-Signature'', ''sha1=good'') = 1
   \<and> (\<exists>pre sent. snd (redirect sampleEnv sampleProxy (Some (sampleHook ''sha1=good'' ''{}'')) ''/repo1'') =
         pre @ [ClientDoCall (httpClient sampleProxy) sent] \<and>
         valuesOf (Header sent) ''Content-Type'' = [''application/json'', ''application/json''])"
proof -
  have p1: "url_Parse sampleEnv (upstreamURL sampleProxy @ ''/repo1'') =
      Inr (blankURL\<lparr>Path := ''upstream:8080/repo1''\<rparr>)"
    by (simp add: sampleEnv_def sampleProxy_def)
  have p2: "http_NewRequest sampleEnv (RequestMethod (sampleHook ''sha1=good'' ''{}''))
         (url_String sampleEnv
            (if Scheme (blankURL\<lparr>Path := ''upstream:8080/repo1''\<rparr>) = []
             then blankURL\<lparr>Path := ''upstream:8080/repo1''\<rparr>\<lparr>Scheme := ''http''\<rparr>
             else blankURL\<lparr>Path := ''upstream:8080/repo1''\<rparr>))
         (Payload (sampleHook ''sha1=good'' ''{}'')) =
       Inr \<lparr>Method = ''POST'', URL = blankURL\<lparr>Path := ''http://upstream:8080/repo1''\<rparr>,
            Header = Map.empty, Body = ''{}''\<rparr>"
    by (simp add: sampleEnv_def sampleHook_def blankURL_def)
  have p3: "distinct (map fst (Headers (sampleHook ''sha1=good'' ''{}'')))"
    by (simp add: sampleHook_def)
  have hs: "Headers (sampleHook ''sha1=good'' ''{}'') =
      [(''X-Hub-Signature'', ''sha1=good''), (''Content-Type'', ''application/json'')]"
    "ContentTypeHeader sampleEnv = ''Content-Type''"
    "CanonicalMIMEHeaderKey sampleEnv = (\<lambda>k. k)"
    by (simp_all add: sampleHook_def sampleEnv_def)
  note t = redirect_headers [OF p1 p2 p3, of "''application/json''" "''X-Hub-Signature''"
      "''sha1=good''" "''Content-Type''"]
  have a: "headerAdds (snd (redirect sampleEnv sampleProxy (Some (sampleHook ''sha1=good'' ''{}'')) ''/repo1'')) =
     [(''Content-Type'', ''application/json''), (''X-Hub-Signature'', ''sha1=good''),
      (''Content-Type'', ''application/json'')]"
    using t [THEN conjunct1] by (simp add: hs)
  have b: "count_list (headerAdds (snd (redirect sampleEnv sampleProxy (Some (sampleHook ''sha1=good'' ''{}'')) ''/repo1'')))
        (''Content-Type'', ''application/json'') = 2"
    using t [THEN conjunct2, THEN conjunct1] by (simp add: hs)
  have c: "count_list (headerAdds (snd (redirect sampleEnv sampleProxy (Some (sampleHook ''sha1=good'' ''{}'')) ''/repo1'')))
        (''X-Hub-Signature'', ''sha1=good'') = 1"
    using t [THEN conjunct2, THEN conjunct2, THEN conjunct1] by (simp add: hs)
  have d: "\<exists>pre sent. snd (redirect sampleEnv sampleProxy (Some (sampleHook ''sha1=good'' ''{}'')) ''/repo1'') =
         pre @ [ClientDoCall (httpClient sampleProxy) sent] \<and>
         valuesOf (Header sent) ''Content-Type'' = [''application/json'', ''application/json'']"
    using t [THEN conjunct2, THEN conjunct2, THEN conjunct2]
    unfolding a by (simp add: hs valuesOf_def)
  from a b c d show ?thesis by (intro conjI)
qed

text \<open>
  Claim C7. For every path, \<^verbatim>\<open>redirect\<close> with the nil hook returns the error
  \<open>Cannot redirect with nil Hook\<close> and makes no call: no request is made or sent.
\<close>

theorem redirect_nil_hook:
  "redirect env P None path = (Inl (errors_New ''Cannot redirect with nil Hook''), [])"
  by (simp add: redirect_def)


subsection \<open>proxyRequest\<close>

text \<open>
  Claim C1. The handler answers by the first step that fails, and the calls made
  are exactly those of the steps up to it: 403 and no call when the path is not
  allowed; 500 when the provider cannot be made; 400 with the parser's message in
  the body when parsing fails; 400 when validation fails; 500 when \<^verbatim>\<open>redirect\<close>
  returns an error; the upstream's status code when it is 400 or more; and
  otherwise nothing is written, which is a 200 with an empty body.
\<close>

theorem proxyRequest_steps:
  "(\<not> isPathAllowed P (Path (URL r)) \<longrightarrow>
      fst (response (fst (proxyRequest env P newResponseWriter r))) = 403 \<and>
      snd (proxyRequest env P newResponseWriter r) = [])
   \<and> (isPathAllowed P (Path (URL r)) \<and> NewProvider env (provider P) (secret P) = Inl errP \<longrightarrow>
      fst (response (fst (proxyRequest env P newResponseWriter r))) = 500 \<and>
      snd (proxyRequest env P newResponseWriter r) = [NewProviderCall (provider P) (secret P)])
   \<and> (isPathAllowed P (Path (URL r)) \<and> NewProvider env (provider P) (secret P) = Inr prov \<and>
       Parse env r prov = Inl errH \<longrightarrow>
      response (fst (proxyRequest env P newResponseWriter r)) =
        (400, ''Error parsing Hook: '' @ Error_msg errH @ [CHR 0x0A]) \<and>
      snd (proxyRequest env P newResponseWriter r) =
        [NewProviderCall (provider P) (secret P), ParseCall r prov])
   \<and> (isPathAllowed P (Path (URL r)) \<and> NewProvider env (provider P) (secret P) = Inr prov \<and>
       Parse env r prov = Inr hook \<and> \<not> Validate env prov hook \<longrightarrow>
      fst (response (fst (proxyRequest env P newResponseWriter r))) = 400 \<and>
      snd (proxyRequest env P newResponseWriter r) =
        [NewProviderCall (provider P) (secret P), ParseCall r prov, ValidateCall prov hook])
   \<and> (isPathAllowed P (Path (URL r)) \<and> NewProvider env (provider P) (secret P) = Inr prov \<and>
       Parse env r prov = Inr hook \<and> Validate env prov hook \<and>
       redirect env P (Some hook) (Path (URL r)) = (Inl errR, tr) \<longrightarrow>
      fst (response (fst (proxyRequest env P newResponseWriter r))) = 500 \<and>
      snd (proxyRequest env P newResponseWriter r) =
        [NewProviderCall (provider P) (secret P), ParseCall r prov, ValidateCall prov hook] @ tr)
   \<and> (isPathAllowed P (Path (URL r)) \<and> NewProvider env (provider P) (secret P) = Inr prov \<and>
       Parse env r prov = Inr hook \<and> Validate env prov hook \<and>
       redirect env P (Some hook) (Path (URL r)) = (Inr resp, tr) \<and> StatusCode resp \<ge> 400 \<longrightarrow>
      response (fst (proxyRequest env P newResponseWriter r)) =
        (StatusCode resp,
         redirectMsg env P r @ '' Upstream Redirect Status:'' @ Status resp @ [CHR 0x0A]) \<and>
      snd (proxyRequest env P newResponseWriter r) =
        [NewProviderCall (provider P) (secret P), ParseCall r prov, ValidateCall prov hook] @ tr)
   \<and> (isPathAllowed P (Path (URL r)) \<and> NewProvider env (provider P) (secret P) = Inr prov \<and>
       Parse env r prov = Inr hook \<and> Validate env prov hook \<and>
       redirect env P (Some hook) (Path (URL r)) = (Inr resp, tr) \<and> StatusCode resp < 400 \<longrightarrow>
      response (fst (proxyRequest env P newResponseWriter r)) = (200, []) \<and>
      snd (proxyRequest env P newResponseWriter r) =
        [NewProviderCall (provider P) (secret P), ParseCall r prov, ValidateCall prov hook] @ tr)"
  by (simp add: proxyRequest_def Let_def response_def http_Error_def newResponseWriter_def
      StatusForbidden_def StatusBadRequest_def StatusInternalServerError_def)

theorem proxyRequest_steps_witness:
  "fst (response (fst (proxyRequest sampleEnv sampleProxy newResponseWriter
      (sampleRequest ''/repo2'' ''sha1=good'' ''{}'')))) = 403
   \<and> fst (response (fst (proxyRequest sampleEnv (sampleProxy\<lparr>provider := ''bitbucket''\<rparr>)
      newResponseWriter (sampleRequest ''/repo1'' ''sha1=good'' ''{}'')))) = 500
   \<and> response (fst (proxyRequest sampleEnv sampleProxy newResponseWriter
      (sampleRequest ''/repo1'' ''sha1=good'' []))) =
        (400, ''Error parsing Hook: empty body'' @ [CHR 0x0A])
   \<and> fst (response (fst (proxyRequest sampleEnv sampleProxy newResponseWriter
      (sampleRequest ''/repo1'' ''sha1=bad'' ''{}'')))) = 400
   \<and> fst (response (fst (proxyRequest sampleEnv sampleProxy newResponseWriter
      (sampleRequest ''/repo1'' ''sha1=good'' ''down'')))) = 500
   \<and> fst (response (fst (proxyRequest sampleEnv sampleProxy newResponseWriter
      (sampleRequest ''/repo1'' ''sha1=good'' ''busy'')))) = 503
   \<and> response (fst (proxyRequest sampleEnv sampleProxy newResponseWriter
      (sampleRequest ''/repo1'' ''sha1=good'' ''{}''))) = (200, [])"
proof -
  have no: "\<not> isPathAllowed sampleProxy ''/repo2''" by code_simp
  have yes: "isPathAllowed sampleProxy ''/repo1''" by code_simp
  have yes': "isPathAllowed (sampleProxy\<lparr>provider := ''bitbucket''\<rparr>) ''/repo1''" by code_simp
  have sp: "provider sampleProxy = ''github''"
    "provider (sampleProxy\<lparr>provider := ''bitbucket''\<rparr>) = ''bitbucket''"
    by (simp_all add: sampleProxy_def)
  have red: "redirect sampleEnv sampleProxy (Some (sampleHook ''sha1=good'' payload)) ''/repo1'' =
      (fst (redirect sampleEnv sampleProxy (Some (sampleHook ''sha1=good'' payload)) ''/repo1''),
       snd (redirect sampleEnv sampleProxy (Some (sampleHook ''sha1=good'' payload)) ''/repo1''))"
    for payload by simp
  note facts = sampleRequest_Path sampleEnv_NewProvider sampleEnv_Parse sampleEnv_Validate sp
  have c1: "fst (response (fst (proxyRequest sampleEnv sampleProxy newResponseWriter
      (sampleRequest ''/repo2'' ''sha1=good'' ''{}'')))) = 403"
    using proxyRequest_steps [where env = sampleEnv and P = sampleProxy
        and r = "sampleRequest ''/repo2'' ''sha1=good'' ''{}''", THEN conjunct1] no
    by (simp add: facts)
  have c2: "fst (response (fst (proxyRequest sampleEnv (sampleProxy\<lparr>provider := ''bitbucket''\<rparr>)
      newResponseWriter (sampleRequest ''/repo1'' ''sha1=good'' ''{}'')))) = 500"
    using proxyRequest_steps [where env = sampleEnv and P = "sampleProxy\<lparr>provider := ''bitbucket''\<rparr>"
        and r = "sampleRequest ''/repo1'' ''sha1=good'' ''{}''"
        and errP = "Err ''unknown provider''", THEN conjunct2, THEN conjunct1] yes'
    by (simp add: facts)
  have c3: "response (fst (proxyRequest sampleEnv sampleProxy newResponseWriter
      (sampleRequest ''/repo1'' ''sha1=good'' []))) =
        (400, ''Error parsing Hook: empty body'' @ [CHR 0x0A])"
    using proxyRequest_steps [where env = sampleEnv and P = sampleProxy
        and r = "sampleRequest ''/repo1'' ''sha1=good'' []" and prov = "''github''"
        and errH = "Err ''empty body''",
        THEN conjunct2, THEN conjunct2, THEN conjunct1] yes
    by (simp add: facts)
  have c4: "fst (response (fst (proxyRequest sampleEnv sampleProxy newResponseWriter
      (sampleRequest ''/repo1'' ''sha1=bad'' ''{}'')))) = 400"
    using proxyRequest_steps [where env = sampleEnv and P = sampleProxy
        and r = "sampleRequest ''/repo1'' ''sha1=bad'' ''{}''" and prov = "''github''"
        and hook = "sampleHook ''sha1=bad'' ''{}''",
        THEN conjunct2, THEN conjunct2, THEN conjunct2, THEN conjunct1] yes
    by (simp add: facts)
  have c5: "fst (response (fst (proxyRequest sampleEnv sampleProxy newResponseWriter
      (sampleRequest ''/repo1'' ''sha1=good'' ''down'')))) = 500"
    using proxyRequest_steps [where env = sampleEnv and P = sampleProxy
        and r = "sampleRequest ''/repo1'' ''sha1=good'' ''down''" and prov = "''github''"
        and hook = "sampleHook ''sha1=good'' ''down''"
        and errR = "Err ''connection refused''"
        and tr = "snd (redirect sampleEnv sampleProxy (Some (sampleHook ''sha1=good'' ''down'')) ''/repo1'')",
        THEN conjunct2, THEN conjunct2, THEN conjunct2, THEN conjunct2, THEN conjunct1]
      yes sampleEnv_redirect [of "''/repo1''" "''sha1=good''" "''down''"]
      red [of "''down''"]
    by (simp add: facts)
  have c6: "fst (response (fst (proxyRequest sampleEnv sampleProxy newResponseWriter
      (sampleRequest ''/repo1'' ''sha1=good'' ''busy'')))) = 503"
    using proxyRequest_steps [where env = sampleEnv and P = sampleProxy
        and r = "sampleRequest ''/repo1'' ''sha1=good'' ''busy''" and prov = "''github''"
        and hook = "sampleHook ''sha1=good'' ''busy''"
        and resp = "\<lparr>StatusCode = 503, Status = ''503 Service Unavailable''\<rparr>"
        and tr = "snd (redirect sampleEnv sampleProxy (Some (sampleHook ''sha1=good'' ''busy'')) ''/repo1'')",
        THEN conjunct2, THEN conjunct2, THEN conjunct2, THEN conjunct2, THEN conjunct2,
        THEN conjunct1]
      yes sampleEnv_redirect [of "''/repo1''" "''sha1=good''" "''busy''"]
      red [of "''busy''"]
    by (simp add: facts)
  have c7: "response (fst (proxyRequest sampleEnv sampleProxy newResponseWriter
      (sampleRequest ''/repo1'' ''sha1=good'' ''{}''))) = (200, [])"
    using proxyRequest_steps [where env = sampleEnv and P = sampleProxy
        and r = "sampleRequest ''/repo1'' ''sha1=good'' ''{}''" and prov = "''github''"
        and hook = "sampleHook ''sha1=good'' ''{}''"
        and resp = "\<lparr>StatusCode = 200, Status = ''200 OK''\<rparr>"
        and tr = "snd (redirect sampleEnv sampleProxy (Some (sampleHook ''sha1=good'' ''{}'')) ''/repo1'')",
        THEN conjunct2, THEN conjunct2, THEN conjunct2, THEN conjunct2, THEN conjunct2,
        THEN conjunct2]
      yes sampleEnv_redirect [of "''/repo1''" "''sha1=good''" "''{}''"]
      red [of "''{}''"]
    by (simp add: facts)
  from c1 c2 c3 c4 c5 c6 c7 show ?thesis by (intro conjI)
qed

text \<open>
  Claim C8. When the path is not allowed (403) or validation fails (400), none of
  the calls of \<^verbatim>\<open>redirect\<close> is made, the call of the HTTP client among them; and
  \<^verbatim>\<open>redirect\<close>, given a hook, always makes at least one of them.
\<close>

theorem proxyRequest_rejected_before_redirect:
  "(\<not> isPathAllowed P (Path (URL r)) \<longrightarrow>
      fst (response (fst (proxyRequest env P newResponseWriter r))) = 403 \<and>
      filter isRedirectCall (snd (proxyRequest env P newResponseWriter r)) = [])
   \<and> (isPathAllowed P (Path (URL r)) \<and> NewProvider env (provider P) (secret P) = Inr prov \<and>
       Parse env r prov = Inr hook \<and> \<not> Validate env prov hook \<longrightarrow>
      fst (response (fst (proxyRequest env P newResponseWriter r))) = 400 \<and>
      filter isRedirectCall (snd (proxyRequest env P newResponseWriter r)) = [])
   \<and> filter isRedirectCall (snd (redirect env P (Some h) path)) \<noteq> []"
proof -
  have a: "\<not> isPathAllowed P (Path (URL r)) \<longrightarrow>
      fst (response (fst (proxyRequest env P newResponseWriter r))) = 403 \<and>
      filter isRedirectCall (snd (proxyRequest env P newResponseWriter r)) = []"
    by (simp add: proxyRequest_def response_def http_Error_def newResponseWriter_def
        StatusForbidden_def)
  have b: "isPathAllowed P (Path (URL r)) \<and> NewProvider env (provider P) (secret P) = Inr prov \<and>
       Parse env r prov = Inr hook \<and> \<not> Validate env prov hook \<longrightarrow>
      fst (response (fst (proxyRequest env P newResponseWriter r))) = 400 \<and>
      filter isRedirectCall (snd (proxyRequest env P newResponseWriter r)) = []"
    by (simp add: proxyRequest_def Let_def response_def http_Error_def newResponseWriter_def
        StatusBadRequest_def)
  from a b redirect_calls_nonempty [of env P h path] show ?thesis by (intro conjI)
qed

theorem proxyRequest_rejected_before_redirect_witness:
  "fst (response (fst (proxyRequest sampleEnv sampleProxy newResponseWriter
      (sampleRequest ''/repo2'' ''sha1=good'' ''{}'')))) = 403
   \<and> filter isRedirectCall (snd (proxyRequest sampleEnv sampleProxy newResponseWriter
      (sampleRequest ''/repo2'' ''sha1=good'' ''{}''))) = []
   \<and> fst (response (fst (proxyRequest sampleEnv sampleProxy newResponseWriter
      (sampleRequest ''/repo1'' ''sha1=bad'' ''{}'')))) = 400
   \<and> filter isRedirectCall (snd (proxyRequest sampleEnv sampleProxy newResponseWriter
      (sampleRequest ''/repo1'' ''sha1=bad'' ''{}''))) = []
   \<and> filter isRedirectCall
        (snd (redirect sampleEnv sampleProxy (Some (sampleHook ''sha1=good'' ''{}'')) ''/repo1''))
      \<noteq> []"
proof -
  have no: "\<not> isPathAllowed sampleProxy ''/repo2''" by code_simp
  have yes: "isPathAllowed sampleProxy ''/repo1''" by code_simp
  have sp: "provider sampleProxy = ''github''" by (simp add: sampleProxy_def)
  note facts = sampleRequest_Path sampleEnv_NewProvider sampleEnv_Parse sampleEnv_Validate sp
  note t1 = proxyRequest_rejected_before_redirect [where env = sampleEnv and P = sampleProxy
        and r = "sampleRequest ''/repo2'' ''sha1=good'' ''{}''"
        and h = "sampleHook ''sha1=good'' ''{}''" and path = "''/repo1''"]
  note t2 = proxyRequest_rejected_before_redirect [where env = sampleEnv and P = sampleProxy
        and r = "sampleRequest ''/repo1'' ''sha1=bad'' ''{}''" and prov = "''github''"
        and hook = "sampleHook ''sha1=bad'' ''{}''"]
  have a: "fst (response (fst (proxyRequest sampleEnv sampleProxy newResponseWriter
      (sampleRequest ''/repo2'' ''sha1=good'' ''{}'')))) = 403
   \<and> filter isRedirectCall (snd (proxyRequest sampleEnv sampleProxy newResponseWriter
      (sampleRequest ''/repo2'' ''sha1=good'' ''{}''))) = []"
    using t1 [THEN conjunct1] no by (simp add: facts)
  have b: "fst (response (fst (proxyRequest sampleEnv sampleProxy newResponseWriter
      (sampleRequest ''/repo1'' ''sha1=bad'' ''{}'')))) = 400
   \<and> filter isRedirectCall (snd (proxyRequest sampleEnv sampleProxy newResponseWriter
      (sampleRequest ''/repo1'' ''sha1=bad'' ''{}''))) = []"
    using t2 [THEN conjunct2, THEN conjunct1] yes by (simp add: facts)
  from a b t1 [THEN conjunct2, THEN conjunct2] show ?thesis by (intro conjI) simp_all
qed

end
